theory Spec2Isabelle
  imports Main "HOL-Library.Sublist"
begin

section \<open>Go strings\<close>

text \<open>
  A Go \<open>string\<close> is a sequence of bytes, modelled as \<open>string\<close> (a list of 8-bit
  \<open>char\<close>s).  The functions of package \<open>strings\<close> that the scout runner calls are
  modelled on bytes.  \<open>strings.TrimSpace\<close> and \<open>strings.Fields\<close> decode UTF-8 and
  test each rune with \<open>unicode.IsSpace\<close>; a rune is white space exactly when the bytes
  at that position are the UTF-8 encoding of one of the code points of \<open>space_runes\<close>
  (an invalid byte decodes to U+FFFD, which is not white space, and a continuation byte
  inside a valid rune never starts one of these encodings), so matching the encodings
  bytewise is what the library computes.
\<close>

definition space_runes :: "string list" where
  "space_runes =
    [[CHR 0x09], [CHR 0x0A], [CHR 0x0B], [CHR 0x0C], [CHR 0x0D], [CHR 0x20],
     [CHR 0xC2, CHR 0x85], [CHR 0xC2, CHR 0xA0],
     [CHR 0xE1, CHR 0x9A, CHR 0x80],
     [CHR 0xE2, CHR 0x80, CHR 0x80], [CHR 0xE2, CHR 0x80, CHR 0x81],
     [CHR 0xE2, CHR 0x80, CHR 0x82], [CHR 0xE2, CHR 0x80, CHR 0x83],
     [CHR 0xE2, CHR 0x80, CHR 0x84], [CHR 0xE2, CHR 0x80, CHR 0x85],
     [CHR 0xE2, CHR 0x80, CHR 0x86], [CHR 0xE2, CHR 0x80, CHR 0x87],
     [CHR 0xE2, CHR 0x80, CHR 0x88], [CHR 0xE2, CHR 0x80, CHR 0x89],
     [CHR 0xE2, CHR 0x80, CHR 0x8A],
     [CHR 0xE2, CHR 0x80, CHR 0xA8], [CHR 0xE2, CHR 0x80, CHR 0xA9],
     [CHR 0xE2, CHR 0x80, CHR 0xAF],
     [CHR 0xE2, CHR 0x81, CHR 0x9F],
     [CHR 0xE3, CHR 0x80, CHR 0x80]]"

text \<open>The white-space rune that starts, respectively ends, a string (if any).\<close>

definition leading_space :: "string \<Rightarrow> string option" where
  "leading_space s = find (\<lambda>e. prefix e s) space_runes"

definition trailing_space :: "string \<Rightarrow> string option" where
  "trailing_space s = find (\<lambda>e. suffix e s) space_runes"

lemma space_runes_nonempty: "e \<in> set space_runes \<Longrightarrow> e \<noteq> []"
  by (auto simp: space_runes_def)

lemma leading_space_Some:
  "leading_space s = Some e \<Longrightarrow> e \<in> set space_runes \<and> prefix e s"
  by (auto simp: leading_space_def find_Some_iff)

lemma trailing_space_Some:
  "trailing_space s = Some e \<Longrightarrow> e \<in> set space_runes \<and> suffix e s"
  by (auto simp: trailing_space_def find_Some_iff)

lemma leading_space_shorter:
  "leading_space s = Some e \<Longrightarrow> length (drop (length e) s) < length s"
proof -
  assume h: "leading_space s = Some e"
  then have "e \<noteq> []" and "prefix e s"
    using leading_space_Some space_runes_nonempty by blast+
  then show ?thesis
    by (cases s) (auto simp: prefix_def)
qed

lemma trailing_space_shorter:
  "trailing_space s = Some e \<Longrightarrow> length (take (length s - length e) s) < length s"
proof -
  assume h: "trailing_space s = Some e"
  then have "e \<noteq> []" and "suffix e s"
    using trailing_space_Some space_runes_nonempty by blast+
  then show ?thesis
    by (cases s) (auto simp: suffix_def)
qed

text \<open>\<open>strings.TrimLeftFunc(s, unicode.IsSpace)\<close>: drop leading white-space runes.\<close>

function TrimLeft :: "string \<Rightarrow> string" where
  "TrimLeft s =
     (case leading_space s of
        None \<Rightarrow> s
      | Some e \<Rightarrow> TrimLeft (drop (length e) s))"
  by pat_completeness auto
termination
  by (relation "measure length") (auto dest: leading_space_shorter)

text \<open>\<open>strings.TrimRightFunc(s, unicode.IsSpace)\<close>: drop trailing white-space runes.\<close>

function TrimRight :: "string \<Rightarrow> string" where
  "TrimRight s =
     (case trailing_space s of
        None \<Rightarrow> s
      | Some e \<Rightarrow> TrimRight (take (length s - length e) s))"
  by pat_completeness auto
termination
  by (relation "measure length") (auto dest: trailing_space_shorter)

declare TrimLeft.simps [simp del] TrimRight.simps [simp del]

text \<open>\<open>strings.TrimSpace\<close>: the leading runes are trimmed first, then the trailing ones.\<close>

definition TrimSpace :: "string \<Rightarrow> string" where
  "TrimSpace s = TrimRight (TrimLeft s)"

text \<open>\<open>strings.Split(s, sep)\<close> for a one-byte separator: the pieces between the
  separators, always at least one piece.\<close>

fun Split :: "string \<Rightarrow> char \<Rightarrow> string list" where
  "Split [] sep = [[]]"
| "Split (c # cs) sep =
     (if c = sep then [] # Split cs sep
      else (case Split cs sep of
              [] \<Rightarrow> [[c]]
            | l # ls \<Rightarrow> (c # l) # ls))"

text \<open>\<open>strings.Contains(s, substr)\<close> and \<open>strings.HasPrefix(s, p)\<close>.\<close>

fun Contains :: "string \<Rightarrow> string \<Rightarrow> bool" where
  "Contains [] sub = (sub = [])"
| "Contains (c # cs) sub = (prefix sub (c # cs) \<or> Contains cs sub)"

definition HasPrefix :: "string \<Rightarrow> string \<Rightarrow> bool" where
  "HasPrefix s p = prefix p s"

text \<open>\<open>strings.ReplaceAll(s, old, new)\<close> for a non-empty \<open>old\<close>: the non-overlapping
  occurrences of \<open>old\<close> are replaced from left to right.  (The runner never passes an
  empty \<open>old\<close>; the model leaves the string unchanged there.)\<close>

function ReplaceAll :: "string \<Rightarrow> string \<Rightarrow> string \<Rightarrow> string" where
  "ReplaceAll s old new =
     (if old = [] \<or> s = [] then s
      else if prefix old s then new @ ReplaceAll (drop (length old) s) old new
      else hd s # ReplaceAll (tl s) old new)"
  by pat_completeness auto
termination
  by (relation "measure (\<lambda>(s, old, new). length s)") (auto simp: prefix_def)

declare ReplaceAll.simps [simp del]

text \<open>\<open>strings.Fields(s)\<close>: the maximal runs of bytes that hold no white-space rune.
  \<open>take_token\<close> reads one such run from the front of a string.\<close>

fun take_token :: "string \<Rightarrow> string \<times> string" where
  "take_token [] = ([], [])"
| "take_token (c # cs) =
     (if leading_space (c # cs) \<noteq> None then ([], c # cs)
      else (case take_token cs of (t, r) \<Rightarrow> (c # t, r)))"

lemma take_token_length: "length (snd (take_token s)) \<le> length s"
  by (induction s) (auto split: prod.splits)

lemma take_token_shorter:
  "s \<noteq> [] \<Longrightarrow> leading_space s = None \<Longrightarrow> (t, r) = take_token s \<Longrightarrow> length r < length s"
  using take_token_length [of "tl s"]
  by (cases s) (auto split: prod.splits)

function Fields :: "string \<Rightarrow> string list" where
  "Fields s =
     (if s = [] then []
      else (case leading_space s of
              Some e \<Rightarrow> Fields (drop (length e) s)
            | None \<Rightarrow> (case take_token s of (t, r) \<Rightarrow> t # Fields r)))"
  by pat_completeness auto
termination
  by (relation "measure length") (auto dest: leading_space_shorter take_token_shorter)

declare Fields.simps [simp del]

abbreviation LF :: char where "LF \<equiv> CHR 0x0A"

text \<open>\<open>strings.Join(elems, sep)\<close>.\<close>

fun strings_Join :: "string list \<Rightarrow> string \<Rightarrow> string" where
  "strings_Join [] sep = []"
| "strings_Join [x] sep = x"
| "strings_Join (x # y # ys) sep = x @ sep @ strings_Join (y # ys) sep"

section \<open>Paths and numbers\<close>

text \<open>
  \<open>filepath.Clean\<close> on Unix, on the elements between the separators: an empty element
  and \<open>.\<close> are dropped, \<open>..\<close> removes the element before it when there is one that is
  not itself \<open>..\<close>, is dropped at the root of a rooted path and is kept otherwise.  The
  elements kept so far are held with the last one first.  An empty result is \<open>.\<close>.
\<close>

definition clean_step :: "bool \<Rightarrow> string list \<Rightarrow> string \<Rightarrow> string list" where
  "clean_step rooted st e =
     (if e = [] \<or> e = ''.'' then st
      else if e = ''..'' then
        (if st \<noteq> [] \<and> hd st \<noteq> ''..'' then tl st
         else if \<not> rooted then ''..'' # st
         else st)
      else e # st)"

definition Clean :: "string \<Rightarrow> string" where
  "Clean path =
     (if path = [] then ''.''
      else (let rooted = (hd path = CHR ''/'');
                st = foldl (clean_step rooted) [] (Split path CHR ''/'');
                out = strings_Join (rev st) ''/''
            in if rooted then CHR ''/'' # out
               else if out = [] then ''.'' else out))"

text \<open>\<open>filepath.Join(elem...)\<close>: the elements from the first non-empty one on, joined
  with the separator and cleaned; the empty string when every element is empty.\<close>

fun filepath_Join :: "string list \<Rightarrow> string" where
  "filepath_Join [] = []"
| "filepath_Join (e # es) =
     (if e \<noteq> [] then Clean (strings_Join (e # es) ''/'') else filepath_Join es)"

text \<open>\<open>fmt.Sprintf("%d", n)\<close>: the decimal digits, with a minus sign for a negative
  number.  A Go \<open>int\<close> is modelled as \<open>int\<close>: the runner only compares it with zero and
  prints it.\<close>

function digits :: "nat \<Rightarrow> string" where
  "digits n = (if n < 10 then [''0123456789'' ! n]
               else digits (n div 10) @ [''0123456789'' ! (n mod 10)])"
  by pat_completeness auto
termination
  by (relation "measure id") auto

declare digits.simps [simp del]

definition itoa :: "int \<Rightarrow> string" where
  "itoa n = (if n < 0 then CHR ''-'' # digits (nat (- n)) else digits (nat n))"

section \<open>Errors, the environment and its effects\<close>

text \<open>
  A Go \<open>error\<close> value: \<open>errors.New(msg)\<close>, \<open>fmt.Errorf("<prefix>%w", err)\<close> (which
  wraps \<open>err\<close>), the sentinel \<open>os.ErrNotExist\<close>, and an error returned by the operating
  system or by a library (\<open>os\<close>, \<open>os/exec\<close>, \<open>net\<close>, \<open>encoding/json\<close>).
\<close>

datatype go_error =
    ErrorString string
  | WrapError string go_error
  | ErrNotExist
  | SysError string

fun Error :: "go_error \<Rightarrow> string" where
  "Error (ErrorString m) = m"
| "Error (WrapError p e) = p @ Error e"
| "Error ErrNotExist = ''file does not exist''"
| "Error (SysError m) = m"

text \<open>\<open>errors.Is(err, os.ErrNotExist)\<close> follows the chain of wrapped errors.\<close>

fun is_not_exist :: "go_error \<Rightarrow> bool" where
  "is_not_exist ErrNotExist = True"
| "is_not_exist (WrapError p e) = is_not_exist e"
| "is_not_exist _ = False"

text \<open>
  What an external command did: the chunks it wrote to its two output streams, in the
  order it wrote them, and the error of \<open>cmd.Run()\<close> (\<open>None\<close> for exit status 0).
  A backend that gives the command one buffer per stream reads \<open>captured\<close>; one that
  gives both streams the same buffer reads \<open>merged\<close>.
\<close>

datatype stream = Stdout | Stderr

record proc_result =
  chunks :: "(stream \<times> string) list"
  run_err :: "go_error option"

definition captured :: "stream \<Rightarrow> proc_result \<Rightarrow> string" where
  "captured st p = concat (map snd (filter (\<lambda>c. fst c = st) (chunks p)))"

definition merged :: "proc_result \<Rightarrow> string" where
  "merged p = concat (map snd (chunks p))"

text \<open>
  The environment of one call of the runner: what each operating-system call answers.
  \<open>time_now\<close> is \<open>time.Now().Format("2006-01-02_15-04-05")\<close>.
\<close>

record world =
  user_home :: "go_error + string"
  stat_ok :: "string \<Rightarrow> bool"
  mkdir_all :: "string \<Rightarrow> go_error option"
  time_now :: string
  run_cmd :: "string \<Rightarrow> string list \<Rightarrow> proc_result"
  write_file :: "string \<Rightarrow> string \<Rightarrow> go_error option"

text \<open>The calls a function makes, in order: its trace.\<close>

datatype effect =
    EUserHomeDir
  | EStat string
  | EMkdirAll string
  | ETimeNow
  | EExec string "string list"
  | EWriteFile string string

section \<open>Output normalization (\<open>core/fs_scout.go\<close>)\<close>

text \<open>
  Each normalizer loops over the lines of the raw output and appends records to a
  \<open>bytes.Buffer\<close>; the loop is a recursion on the remaining lines that passes the buffer.
\<close>

fun ssh_stdout_loop :: "string list \<Rightarrow> string \<Rightarrow> string" where
  "ssh_stdout_loop [] buf = buf"
| "ssh_stdout_loop (line # rest) buf =
     (let l = TrimSpace line in
      if l = [] then ssh_stdout_loop rest buf
      else ssh_stdout_loop rest (buf @ ''FILE|'' @ l @ [LF]))"

fun ssh_stderr_loop :: "string list \<Rightarrow> string \<Rightarrow> string" where
  "ssh_stderr_loop [] buf = buf"
| "ssh_stderr_loop (line # rest) buf =
     (if Contains line ''Permission denied''
      then ssh_stderr_loop rest (buf @ ''DENIED|'' @ TrimSpace line @ [LF])
      else ssh_stderr_loop rest buf)"

definition ssh_artifact :: "string \<Rightarrow> string \<Rightarrow> string" where
  "ssh_artifact stdout stderr =
     ssh_stderr_loop (Split stderr LF) (ssh_stdout_loop (Split stdout LF) [])"

definition writeFSScoutOutputSSH ::
  "world \<Rightarrow> string \<Rightarrow> string \<Rightarrow> string \<Rightarrow> go_error option \<times> effect list" where
  "writeFSScoutOutputSSH w outPath stdout stderr =
     (let buf = ssh_artifact stdout stderr
      in (write_file w outPath buf, [EWriteFile outPath buf]))"

fun smb_loop :: "string list \<Rightarrow> string \<Rightarrow> string" where
  "smb_loop [] buf = buf"
| "smb_loop (line # rest) buf =
     (let l = TrimSpace line in
      if l = [] then smb_loop rest buf
      else if Contains l ''NT_STATUS_ACCESS_DENIED''
      then smb_loop rest (buf @ ''DENIED|'' @ l @ [LF])
      else (let fields = Fields l in
            if length fields > 0
            then (let name = fields ! 0 in
                  if name \<noteq> ''.'' \<and> name \<noteq> ''..''
                  then smb_loop rest (buf @ ''FILE|'' @ name @ [LF])
                  else smb_loop rest buf)
            else smb_loop rest buf))"

definition smb_artifact :: "string \<Rightarrow> string" where
  "smb_artifact raw = smb_loop (Split raw LF) []"

definition parseAndWriteSMBOutput ::
  "world \<Rightarrow> string \<Rightarrow> string \<Rightarrow> go_error option \<times> effect list" where
  "parseAndWriteSMBOutput w outPath raw =
     (let buf = smb_artifact raw
      in (write_file w outPath buf, [EWriteFile outPath buf]))"

fun generic_loop :: "string list \<Rightarrow> string \<Rightarrow> string" where
  "generic_loop [] buf = buf"
| "generic_loop (line # rest) buf =
     (let l = TrimSpace line in
      if l = [] then generic_loop rest buf
      else if HasPrefix l ''FILE|'' \<or> HasPrefix l ''DENIED|''
      then generic_loop rest (buf @ l @ [LF])
      else generic_loop rest buf)"

definition generic_artifact :: "string \<Rightarrow> string" where
  "generic_artifact raw = generic_loop (Split raw LF) []"

definition parseAndWriteFSOutputGeneric ::
  "world \<Rightarrow> string \<Rightarrow> string \<Rightarrow> go_error option \<times> effect list" where
  "parseAndWriteFSOutputGeneric w outPath raw =
     (let buf = generic_artifact raw
      in (write_file w outPath buf, [EWriteFile outPath buf]))"

section \<open>The scout session runner (\<open>core/fs_scout.go\<close>)\<close>

definition FSProtocolSSH :: string where "FSProtocolSSH = ''ssh''"

definition FSProtocolSMB :: string where "FSProtocolSMB = ''smb''"

definition FSProtocolFTP :: string where "FSProtocolFTP = ''ftp''"

definition FSProtocolEvilWinRM :: string where "FSProtocolEvilWinRM = ''evil-winrm''"

definition FSModeFast :: string where "FSModeFast = ''fast''"

definition FSModeStealth :: string where "FSModeStealth = ''stealth''"

record FSScoutRequest =
  Protocol :: string
  Host :: string
  Port :: int
  Username :: string
  Password :: string
  SMBShare :: string
  StartDir :: string
  Depth :: int
  Mode :: string

text \<open>The fields of \<open>FSScoutResult\<close>; the zero value \<open>FSScoutResult{}\<close> is \<open>no_result\<close>.\<close>

record FSScoutResult =
  OutputFile :: string
  ResProtocol :: string
  ResMode :: string
  ResHost :: string
  ResError :: string

definition no_result :: FSScoutResult where
  "no_result = \<lparr>OutputFile = [], ResProtocol = [], ResMode = [], ResHost = [], ResError = []\<rparr>"

subsection \<open>The loot directory\<close>

definition LegacyAppDataDirPath :: "world \<Rightarrow> string \<times> effect list" where
  "LegacyAppDataDirPath w =
     (let home = (case user_home w of Inl e \<Rightarrow> [] | Inr h \<Rightarrow> h)
      in (filepath_Join [home, ''.local'', ''share'', ''SwissArmyToolkit''], [EUserHomeDir]))"

definition DefaultAppDataDir :: "world \<Rightarrow> (go_error + string) \<times> effect list" where
  "DefaultAppDataDir w =
     (case user_home w of
        Inl e \<Rightarrow> (Inl e, [EUserHomeDir])
      | Inr home \<Rightarrow>
          (let newPath = filepath_Join [home, ''.local'', ''share'', ''PivotOnTheGO''];
               (oldPath, t) = LegacyAppDataDirPath w
           in if stat_ok w newPath
              then (Inr newPath, EUserHomeDir # t @ [EStat newPath])
              else if stat_ok w oldPath
              then (Inr oldPath, EUserHomeDir # t @ [EStat newPath, EStat oldPath])
              else (Inr newPath, EUserHomeDir # t @ [EStat newPath, EStat oldPath])))"

definition DefaultLootDir :: "world \<Rightarrow> (go_error + string) \<times> effect list" where
  "DefaultLootDir w =
     (case DefaultAppDataDir w of
        (Inl e, t) \<Rightarrow> (Inl e, t)
      | (Inr base, t) \<Rightarrow> (Inr (filepath_Join [base, ''loot'']), t))"

subsection \<open>The backends\<close>

definition sanitizeHost :: "string \<Rightarrow> string" where
  "sanitizeHost h =
     (let h = TrimSpace h;
          h = ReplaceAll h '':'' ''_'';
          h = ReplaceAll h ''/'' ''_''
      in h)"

definition ssh_args :: "FSScoutRequest \<Rightarrow> string list" where
  "ssh_args req =
     (let port = (if Port req = 0 then 22 else Port req);
          depthStr = itoa (Depth req);
          target = Username req @ ''@'' @ Host req
      in [''-p'', itoa port,
          target,
          ''find'', StartDir req,
          ''-maxdepth'', depthStr,
          ''-type'', ''f'',
          ''-printf'', ''%p\<newline>''])"

definition runFSScoutSSH ::
  "world \<Rightarrow> FSScoutRequest \<Rightarrow> string \<Rightarrow> go_error option \<times> effect list" where
  "runFSScoutSSH w req outPath =
     (let args = ssh_args req;
          p = run_cmd w ''ssh'' args;
          err = run_err p;
          (writeErr, t) = writeFSScoutOutputSSH w outPath (captured Stdout p) (captured Stderr p)
      in (case err of
            Some e \<Rightarrow> Some (WrapError ''ssh command failed: '' e)
          | None \<Rightarrow> writeErr,
          EExec ''ssh'' args # t))"

definition smb_args :: "FSScoutRequest \<Rightarrow> string list" where
  "smb_args req =
     (let target = ''//'' @ Host req @ ''/'' @ SMBShare req;
          userArg = Username req @ ''%'' @ Password req
      in [target,
          ''-U'', userArg,
          ''-c'', ''recurse; ls''])"

definition runFSScoutSMB ::
  "world \<Rightarrow> FSScoutRequest \<Rightarrow> string \<Rightarrow> go_error option \<times> effect list" where
  "runFSScoutSMB w req outPath =
     (if SMBShare req = []
      then (Some (ErrorString ''SMB share name is required for smb protocol''), [])
      else (let args = smb_args req;
                p = run_cmd w ''smbclient'' args;
                err = run_err p;
                (parseErr, t) = parseAndWriteSMBOutput w outPath (merged p)
            in (case err of
                  Some e \<Rightarrow> Some (WrapError ''smbclient command failed: '' e)
                | None \<Rightarrow> parseErr,
                EExec ''smbclient'' args # t)))"

text \<open>The PowerShell script of the Evil-WinRM backend, line by line, with the start
  directory and the depth printed into it; its line feeds are then replaced by spaces.\<close>

definition psScript :: "string \<Rightarrow> int \<Rightarrow> string" where
  \<open>psScript startDir depth =
     ReplaceAll
       (strings_Join
          ['''',
           ''$start = "'' @ startDir @ ''"'',
           ''$depth = '' @ itoa depth,
           ''function Walk($path, $level) {'',
           ''    if ($level -gt $depth) { return }'',
           ''    try {'',
           ''        Get-ChildItem -Path $path -ErrorAction Stop | ForEach-Object {'',
           ''            if ($_.PSIsContainer) {'',
           ''                Walk $_.FullName ($level + 1)'',
           ''            } else {'',
           ''                "FILE|$($_.FullName)"'',
           ''            }'',
           ''        }'',
           ''    } catch {'',
           ''        "DENIED|$path"'',
           ''    }'',
           ''}'',
           ''Walk $start 0'',
           '''']
          [LF])
       [LF] '' ''\<close>

definition winrm_args :: "FSScoutRequest \<Rightarrow> string list" where
  "winrm_args req =
     (let port = (if Port req = 0 then 5985 else Port req)
      in [''-i'', Host req,
          ''-u'', Username req,
          ''-p'', Password req,
          ''-P'', itoa port,
          ''-c'', psScript (StartDir req) (Depth req)])"

definition runFSScoutEvilWinRM ::
  "world \<Rightarrow> FSScoutRequest \<Rightarrow> string \<Rightarrow> go_error option \<times> effect list" where
  "runFSScoutEvilWinRM w req outPath =
     (let args = winrm_args req;
          p = run_cmd w ''evil-winrm'' args;
          err = run_err p;
          (parseErr, t) = parseAndWriteFSOutputGeneric w outPath (merged p)
      in (case err of
            Some e \<Rightarrow> Some (WrapError ''evil-winrm command failed: '' e)
          | None \<Rightarrow> parseErr,
          EExec ''evil-winrm'' args # t))"

subsection \<open>\<open>RunFSScout\<close>\<close>

text \<open>The result is the pair that the Go function returns, with the trace of the calls
  it made.  Every early \<open>return\<close> of the source is a branch; \<open>dispatch\<close> is the
  \<open>switch\<close> on the protocol.\<close>

definition dispatch ::
  "world \<Rightarrow> FSScoutRequest \<Rightarrow> string \<Rightarrow> go_error option \<times> effect list" where
  "dispatch w req outPath =
     (if Protocol req = FSProtocolSSH then runFSScoutSSH w req outPath
      else if Protocol req = FSProtocolSMB then runFSScoutSMB w req outPath
      else if Protocol req = FSProtocolFTP
      then (Some (ErrorString
              ''FTP auto-scout not implemented yet; use generate-only / manual mode''), [])
      else if Protocol req = FSProtocolEvilWinRM then runFSScoutEvilWinRM w req outPath
      else (Some (ErrorString ''unsupported protocol''), []))"

definition RunFSScout ::
  "world \<Rightarrow> FSScoutRequest \<Rightarrow> (FSScoutResult \<times> go_error option) \<times> effect list" where
  "RunFSScout w req0 =
     (if Host req0 = [] then ((no_result, Some (ErrorString ''host is required'')), [])
      else if Username req0 = [] \<or> Password req0 = []
      then ((no_result, Some (ErrorString ''username and password are required'')), [])
      else if StartDir req0 = []
      then ((no_result, Some (ErrorString ''start directory is required'')), [])
      else
        (let req1 = (if Depth req0 \<le> 0 then req0\<lparr>Depth := 3\<rparr> else req0);
             req = (if Mode req1 = [] then req1\<lparr>Mode := FSModeFast\<rparr> else req1)
         in case DefaultLootDir w of
              (Inl err, t1) \<Rightarrow> ((no_result, Some err), t1)
            | (Inr lootDir, t1) \<Rightarrow>
                (let fsBase = filepath_Join [lootDir, ''fs'', sanitizeHost (Host req)]
                 in case mkdir_all w fsBase of
                      Some err \<Rightarrow> ((no_result, Some err), t1 @ [EMkdirAll fsBase])
                    | None \<Rightarrow>
                        (let ts = time_now w;
                             outName = ts @ ''_'' @ Protocol req @ ''_'' @ Mode req @ ''.txt'';
                             outPath = filepath_Join [fsBase, outName];
                             (runErr, t2) = dispatch w req outPath;
                             res = \<lparr>OutputFile = outPath, ResProtocol = Protocol req,
                                    ResMode = Mode req, ResHost = Host req, ResError = []\<rparr>;
                             t = t1 @ [EMkdirAll fsBase, ETimeNow] @ t2
                         in case runErr of
                              Some e \<Rightarrow> ((res\<lparr>ResError := Error e\<rparr>, Some e), t)
                            | None \<Rightarrow> ((res, None), t)))))"

section \<open>The HTTP handlers (\<open>main.go\<close>)\<close>

text \<open>
  A response is the status code and the JSON object that \<open>respondJSON\<close> encodes; a
  \<open>map[string]string\<close> or \<open>map[string]bool\<close> payload is the list of its entries.
  \<open>encode_result\<close> is the JSON encoding of an \<open>FSScoutResult\<close>: the field \<open>error\<close> is
  tagged \<open>omitempty\<close>.
\<close>

datatype json_value = JString string | JBool bool

record response =
  Status :: nat
  Payload :: "(string \<times> json_value) list"

definition StatusOK :: nat where "StatusOK = 200"

definition StatusBadRequest :: nat where "StatusBadRequest = 400"

definition StatusMethodNotAllowed :: nat where "StatusMethodNotAllowed = 405"

definition StatusConflict :: nat where "StatusConflict = 409"

definition StatusInternalServerError :: nat where "StatusInternalServerError = 500"

definition MethodGet :: string where "MethodGet = ''GET''"

definition MethodPost :: string where "MethodPost = ''POST''"

definition respondJSON :: "nat \<Rightarrow> (string \<times> json_value) list \<Rightarrow> response" where
  "respondJSON status payload = \<lparr>Status = status, Payload = payload\<rparr>"

definition respondError :: "nat \<Rightarrow> string \<Rightarrow> response" where
  "respondError status message = respondJSON status [(''error'', JString message)]"

definition encode_result :: "FSScoutResult \<Rightarrow> (string \<times> json_value) list" where
  "encode_result res =
     [(''output_file'', JString (OutputFile res)),
      (''protocol'', JString (ResProtocol res)),
      (''mode'', JString (ResMode res)),
      (''host'', JString (ResHost res))]
     @ (if ResError res = [] then [] else [(''error'', JString (ResError res))])"

text \<open>\<open>handleFSScout\<close>: the request is its method and what decoding its body gives, an
  error (malformed, oversized or with an unknown field) or a scout request.\<close>

definition handleFSScout ::
  "world \<Rightarrow> string \<Rightarrow> go_error + FSScoutRequest \<Rightarrow> response \<times> effect list" where
  "handleFSScout w method body =
     (if method \<noteq> MethodPost
      then (respondError StatusMethodNotAllowed ''method not allowed'', [])
      else case body of
             Inl err \<Rightarrow> (respondError StatusBadRequest (Error err), [])
           | Inr req \<Rightarrow>
               (case RunFSScout w req of
                  ((res, Some err), t) \<Rightarrow> (respondJSON StatusBadRequest (encode_result res), t)
                | ((res, None), t) \<Rightarrow> (respondJSON StatusOK (encode_result res), t)))"

section \<open>The process lifecycle coordinator (\<open>main.go\<close>, \<open>core/logic.go\<close>)\<close>

record Config =
  ProxyBind :: string
  ProxyPort :: int
  PublicIP :: string
  ProxyBinary :: string
  AgentBinary :: string
  FileBind :: string
  FilePort :: int
  FileDirectory :: string

definition DefaultConfig :: Config where
  "DefaultConfig =
     \<lparr>ProxyBind = ''127.0.0.1'', ProxyPort = 11601, PublicIP = ''CHANGEME_PUBLIC_IP'',
      ProxyBinary = ''/opt/ligolo/proxy'', AgentBinary = ''agent'',
      FileBind = ''0.0.0.0'', FilePort = 8000, FileDirectory = []\<rparr>"

text \<open>
  The two handles of \<open>main.go\<close>: \<open>proxyCmd\<close>, an \<open>*exec.Cmd\<close> that has been started, and
  \<open>fileSrv\<close>, an \<open>*http.Server\<close> with its listener; \<open>None\<close> is \<open>nil\<close>.  Beside them the
  state holds what exists outside the daemon: the child processes it has started that
  have not been killed, and the listeners it has opened that have not been closed.
  Each handler runs under the mutex of its kind, so it is one step on this state.
\<close>

record Cmd =
  cmd_path :: string
  cmd_args :: "string list"
  cmd_pid :: nat

record Server =
  srv_addr :: string
  srv_root :: string
  srv_listener :: nat

record daemon =
  proxyCmd :: "Cmd option"
  fileSrv :: "Server option"
  processes :: "nat list"
  listeners :: "nat list"
  next_id :: nat

definition initial :: daemon where
  "initial = \<lparr>proxyCmd = None, fileSrv = None, processes = [], listeners = [], next_id = 0\<rparr>"

text \<open>
  What the environment answers during one request: \<open>core.LoadConfig()\<close> (an error or a
  configuration), \<open>core.SanitizeConfig\<close> (the configuration store is a collaborator of
  the coordinator; its result is taken as given), \<open>cmd.Start()\<close>, whether a path is a
  directory (\<open>os.Stat\<close> succeeds and \<open>IsDir()\<close>), and \<open>net.Listen("tcp", addr)\<close>.
\<close>

record env =
  LoadConfig :: "go_error + Config"
  SanitizeConfig :: "Config \<Rightarrow> Config"
  cmd_Start :: "string \<Rightarrow> string list \<Rightarrow> go_error option"
  is_dir :: "string \<Rightarrow> bool"
  net_Listen :: "string \<Rightarrow> go_error option"

text \<open>\<open>core.StartProxy\<close>: on success a new child process runs.\<close>

definition StartProxy :: "env \<Rightarrow> Config \<Rightarrow> daemon \<Rightarrow> (go_error + Cmd) \<times> daemon" where
  "StartProxy e cfg0 s =
     (let cfg = SanitizeConfig e cfg0;
          addr = ProxyBind cfg @ '':'' @ itoa (ProxyPort cfg);
          args = [''-laddr'', addr, ''-selfcert'']
      in case cmd_Start e (ProxyBinary cfg) args of
           Some err \<Rightarrow> (Inl err, s)
         | None \<Rightarrow>
             (Inr \<lparr>cmd_path = ProxyBinary cfg, cmd_args = args, cmd_pid = next_id s\<rparr>,
              s\<lparr>processes := next_id s # processes s, next_id := Suc (next_id s)\<rparr>))"

text \<open>The configuration a start handler works with: the loaded one, the default one when
  the file does not exist, none (status 500) for any other error.\<close>

definition load_or_default :: "env \<Rightarrow> Config option" where
  "load_or_default e =
     (case LoadConfig e of
        Inr cfg \<Rightarrow> Some cfg
      | Inl err \<Rightarrow> if is_not_exist err then Some DefaultConfig else None)"

definition handleStartProxy :: "env \<Rightarrow> string \<Rightarrow> daemon \<Rightarrow> response \<times> daemon" where
  "handleStartProxy e method s =
     (if method \<noteq> MethodPost
      then (respondError StatusMethodNotAllowed ''method not allowed'', s)
      else if proxyCmd s \<noteq> None
      then (respondError StatusConflict ''proxy already running'', s)
      else case load_or_default e of
             None \<Rightarrow> (respondError StatusInternalServerError ''failed to load config'', s)
           | Some cfg0 \<Rightarrow>
               (let cfg = SanitizeConfig e cfg0
                in case StartProxy e cfg s of
                     (Inl err, s') \<Rightarrow>
                       (respondError StatusInternalServerError ''failed to start proxy'', s')
                   | (Inr cmd, s') \<Rightarrow>
                       (respondJSON StatusOK [(''status'', JString ''started'')],
                        s'\<lparr>proxyCmd := Some cmd\<rparr>)))"

text \<open>\<open>handleStopProxy\<close>: the process of the handle is killed (the error of \<open>Kill\<close> is
  dropped) and the handle cleared; waiting for the exit is left to a goroutine.\<close>

definition handleStopProxy :: "env \<Rightarrow> string \<Rightarrow> daemon \<Rightarrow> response \<times> daemon" where
  "handleStopProxy e method s =
     (if method \<noteq> MethodPost
      then (respondError StatusMethodNotAllowed ''method not allowed'', s)
      else case proxyCmd s of
             None \<Rightarrow> (respondJSON StatusOK [(''status'', JString ''not_running'')], s)
           | Some cmd \<Rightarrow>
               (respondJSON StatusOK [(''status'', JString ''stopped'')],
                s\<lparr>processes := removeAll (cmd_pid cmd) (processes s), proxyCmd := None\<rparr>))"

definition handleStatus :: "env \<Rightarrow> string \<Rightarrow> daemon \<Rightarrow> response \<times> daemon" where
  "handleStatus e method s =
     (if method \<noteq> MethodGet
      then (respondError StatusMethodNotAllowed ''method not allowed'', s)
      else (respondJSON StatusOK [(''proxy_running'', JBool (proxyCmd s \<noteq> None))], s))"

definition handleFileStart :: "env \<Rightarrow> string \<Rightarrow> daemon \<Rightarrow> response \<times> daemon" where
  "handleFileStart e method s =
     (if method \<noteq> MethodPost
      then (respondError StatusMethodNotAllowed ''method not allowed'', s)
      else if fileSrv s \<noteq> None
      then (respondError StatusConflict ''file server already running'', s)
      else case load_or_default e of
             None \<Rightarrow> (respondError StatusInternalServerError ''failed to load config'', s)
           | Some cfg0 \<Rightarrow>
               (let cfg = SanitizeConfig e cfg0
                in if FileDirectory cfg = []
                   then (respondError StatusBadRequest ''invalid file directory'', s)
                   else if \<not> is_dir e (FileDirectory cfg)
                   then (respondError StatusBadRequest ''invalid file directory'', s)
                   else (let addr = FileBind cfg @ '':'' @ itoa (FilePort cfg);
                             srv = \<lparr>srv_addr = addr, srv_root = FileDirectory cfg,
                                    srv_listener = next_id s\<rparr>
                         in case net_Listen e addr of
                              Some err \<Rightarrow>
                                (respondError StatusInternalServerError
                                   ''failed to start file server'', s)
                            | None \<Rightarrow>
                                (respondJSON StatusOK [(''status'', JString ''started'')],
                                 s\<lparr>listeners := next_id s # listeners s,
                                   next_id := Suc (next_id s),
                                   fileSrv := Some srv\<rparr>))))"

text \<open>\<open>handleFileStop\<close>: \<open>Shutdown\<close> closes the listener; its error is only logged.\<close>

definition handleFileStop :: "env \<Rightarrow> string \<Rightarrow> daemon \<Rightarrow> response \<times> daemon" where
  "handleFileStop e method s =
     (if method \<noteq> MethodPost
      then (respondError StatusMethodNotAllowed ''method not allowed'', s)
      else case fileSrv s of
             None \<Rightarrow> (respondJSON StatusOK [(''status'', JString ''not_running'')], s)
           | Some srv \<Rightarrow>
               (respondJSON StatusOK [(''status'', JString ''stopped'')],
                s\<lparr>listeners := removeAll (srv_listener srv) (listeners s), fileSrv := None\<rparr>))"

definition handleFileStatus :: "env \<Rightarrow> string \<Rightarrow> daemon \<Rightarrow> response \<times> daemon" where
  "handleFileStatus e method s =
     (if method \<noteq> MethodGet
      then (respondError StatusMethodNotAllowed ''method not allowed'', s)
      else (respondJSON StatusOK [(''file_server_running'', JBool (fileSrv s \<noteq> None))], s))"

text \<open>The routes of the coordinator in \<open>main\<close>, and a run of the daemon: the requests it
  serves one after the other, each with its method and its environment.\<close>

datatype route = StartProxyR | StopProxyR | StatusR | FileStartR | FileStopR | FileStatusR

fun serve :: "route \<Rightarrow> env \<Rightarrow> string \<Rightarrow> daemon \<Rightarrow> response \<times> daemon" where
  "serve StartProxyR = handleStartProxy"
| "serve StopProxyR = handleStopProxy"
| "serve StatusR = handleStatus"
| "serve FileStartR = handleFileStart"
| "serve FileStopR = handleFileStop"
| "serve FileStatusR = handleFileStatus"

fun run :: "(route \<times> env \<times> string) list \<Rightarrow> daemon \<Rightarrow> daemon" where
  "run [] s = s"
| "run ((r, e, m) # rest) s = run rest (snd (serve r e m s))"

section \<open>The notions of the specification\<close>

text \<open>
  The definitions of this section are not code of the program: they name what the
  specification speaks of (the records of an artifact, a valid request, the directory of
  an attempt, the processes of a trace, a coherent state of the coordinator), so that the
  theorems can compare the program with them.
\<close>

text \<open>The claims' own words for the records, to compare the loops with.\<close>

definition first_token :: "string \<Rightarrow> string" where
  "first_token l = fst (take_token l)"

definition ssh_file_records :: "string \<Rightarrow> string list" where
  "ssh_file_records stdout =
     map (\<lambda>l. ''FILE|'' @ l) (filter (\<lambda>l. l \<noteq> []) (map TrimSpace (Split stdout LF)))"

definition ssh_denied_records :: "string \<Rightarrow> string list" where
  "ssh_denied_records stderr =
     map (\<lambda>l. ''DENIED|'' @ TrimSpace l)
       (filter (\<lambda>l. Contains l ''Permission denied'') (Split stderr LF))"

definition smb_record :: "string \<Rightarrow> string option" where
  "smb_record line =
     (let l = TrimSpace line in
      if l = [] then None
      else if Contains l ''NT_STATUS_ACCESS_DENIED'' then Some (''DENIED|'' @ l)
      else if first_token l = ''.'' \<or> first_token l = ''..'' then None
      else Some (''FILE|'' @ first_token l))"

text \<open>A file of records: each record on a line of its own, ended by a line feed.\<close>

definition render :: "string list \<Rightarrow> string" where
  "render rs = concat (map (\<lambda>r. r @ [LF]) rs)"

text \<open>The request after \<open>RunFSScout\<close> has applied its defaults for depth and mode.\<close>

definition effective_request :: "FSScoutRequest \<Rightarrow> FSScoutRequest" where
  "effective_request req0 =
     (let req1 = (if Depth req0 \<le> 0 then req0\<lparr>Depth := 3\<rparr> else req0)
      in if Mode req1 = [] then req1\<lparr>Mode := FSModeFast\<rparr> else req1)"

text \<open>The request passes the validation at the head of \<open>RunFSScout\<close>.\<close>

definition request_valid :: "FSScoutRequest \<Rightarrow> bool" where
  "request_valid req \<longleftrightarrow>
     Host req \<noteq> [] \<and> Username req \<noteq> [] \<and> Password req \<noteq> [] \<and> StartDir req \<noteq> []"

text \<open>The directory and the file of an attempt, from the loot directory.\<close>

definition fs_base :: "string \<Rightarrow> FSScoutRequest \<Rightarrow> string" where
  "fs_base lootDir req = filepath_Join [lootDir, ''fs'', sanitizeHost (Host req)]"

definition out_path :: "world \<Rightarrow> string \<Rightarrow> FSScoutRequest \<Rightarrow> string" where
  "out_path w lootDir req =
     filepath_Join [fs_base lootDir req,
       time_now w @ ''_'' @ Protocol req @ ''_'' @ Mode (effective_request req) @ ''.txt'']"

text \<open>Which calls of a trace start an external process, and which write a file.\<close>

fun is_exec :: "effect \<Rightarrow> bool" where
  "is_exec (EExec name args) = True"
| "is_exec _ = False"

fun is_write_file :: "effect \<Rightarrow> bool" where
  "is_write_file (EWriteFile path content) = True"
| "is_write_file _ = False"

text \<open>The one error a backend returns from the error of the command and the error of the
  write, as the three backends compute it: the command's error, wrapped, when there is
  one, and the error of the write otherwise.\<close>

definition backend_report :: "string \<Rightarrow> go_error option \<Rightarrow> go_error option \<Rightarrow> go_error option" where
  "backend_report tool cmd_err write_err =
     (case cmd_err of
        Some e \<Rightarrow> Some (WrapError (tool @ '' command failed: '') e)
      | None \<Rightarrow> write_err)"

text \<open>What is live outside the daemon is exactly what its handles hold: at most one
  process and at most one listener, there if and only if the handle is.\<close>

definition coherent :: "daemon \<Rightarrow> bool" where
  "coherent s \<longleftrightarrow>
     processes s = (case proxyCmd s of None \<Rightarrow> [] | Some cmd \<Rightarrow> [cmd_pid cmd])
     \<and> listeners s = (case fileSrv s of None \<Rightarrow> [] | Some srv \<Rightarrow> [srv_listener srv])"

text \<open>The environment lets a Start succeed: the configuration loads (or its file is
  absent), and the proxy binary starts, respectively the directory exists and the
  address can be bound.\<close>

definition proxy_can_start :: "env \<Rightarrow> bool" where
  "proxy_can_start e \<longleftrightarrow>
     (case load_or_default e of
        None \<Rightarrow> False
      | Some cfg0 \<Rightarrow>
          (let cfg = SanitizeConfig e (SanitizeConfig e cfg0)
           in cmd_Start e (ProxyBinary cfg)
                [''-laddr'', ProxyBind cfg @ '':'' @ itoa (ProxyPort cfg), ''-selfcert''] = None))"

definition file_server_can_start :: "env \<Rightarrow> bool" where
  "file_server_can_start e \<longleftrightarrow>
     (case load_or_default e of
        None \<Rightarrow> False
      | Some cfg0 \<Rightarrow>
          (let cfg = SanitizeConfig e cfg0
           in FileDirectory cfg \<noteq> [] \<and> is_dir e (FileDirectory cfg)
              \<and> net_Listen e (FileBind cfg @ '':'' @ itoa (FilePort cfg)) = None))"

text \<open>The elements that \<open>Clean\<close> keeps, last one first: none is empty, \<open>.\<close> or holds a
  separator, and \<open>..\<close> stands only below other \<open>..\<close> in a path that is not rooted.\<close>

fun clean_stack :: "bool \<Rightarrow> string list \<Rightarrow> bool" where
  "clean_stack rooted [] = True"
| "clean_stack rooted (e # st) =
     (e \<noteq> [] \<and> e \<noteq> ''.'' \<and> CHR ''/'' \<notin> set e
      \<and> (e = ''..'' \<longrightarrow> \<not> rooted \<and> (\<forall>x \<in> set st. x = ''..''))
      \<and> clean_stack rooted st)"

text \<open>The string \<open>Clean\<close> returns for a stack of kept elements.\<close>

definition clean_out :: "bool \<Rightarrow> string list \<Rightarrow> string" where
  "clean_out rooted st =
     (let out = strings_Join (rev st) ''/''
      in if rooted then CHR ''/'' # out else if out = [] then ''.'' else out)"

section \<open>Example inputs\<close>

text \<open>An environment in which every call succeeds, and one scout request.\<close>

definition example_world :: world where
  "example_world =
     \<lparr>user_home = Inr ''/home/op'',
      stat_ok = (\<lambda>p. p = ''/home/op/.local/share/PivotOnTheGO''),
      mkdir_all = (\<lambda>p. None),
      time_now = ''2024-01-01_00-00-00'',
      run_cmd = (\<lambda>name args.
        \<lparr>chunks = [(Stdout, ''/etc/passwd\<newline>/etc/shadow\<newline>\<newline>''),
                   (Stderr, ''find: /root: Permission denied\<newline>'')],
         run_err = None\<rparr>),
      write_file = (\<lambda>p c. None)\<rparr>"

definition example_request :: FSScoutRequest where
  "example_request =
     \<lparr>Protocol = ''ssh'', Host = ''10.0.0.5'', Port = 0, Username = ''root'',
      Password = ''hunter2'', SMBShare = [], StartDir = ''/etc'', Depth = 0, Mode = []\<rparr>"

text \<open>Two environments in which the \<open>ssh\<close> command fails, one where the artifact can be
  written and one where it cannot.\<close>

definition cmd_fails_write_ok :: world where
  "cmd_fails_write_ok =
     example_world\<lparr>run_cmd := (\<lambda>name args.
        \<lparr>chunks = [(Stdout, ''/etc/passwd\<newline>''), (Stderr, ''Connection closed\<newline>'')],
         run_err = Some (SysError ''exit status 255'')\<rparr>)\<rparr>"

definition cmd_fails_write_fails :: world where
  "cmd_fails_write_fails =
     cmd_fails_write_ok\<lparr>write_file := (\<lambda>path content. Some (SysError ''no space left on device''))\<rparr>"

text \<open>An environment in which a start succeeds: the configuration file is absent, the
  proxy binary starts, the directory exists and the port is free.\<close>

definition example_env :: env where
  "example_env =
     \<lparr>LoadConfig = Inl ErrNotExist,
      SanitizeConfig = (\<lambda>cfg. cfg\<lparr>FileDirectory := ''/home/op/.local/share/PivotOnTheGO/loot''\<rparr>),
      cmd_Start = (\<lambda>path args. None),
      is_dir = (\<lambda>path. True),
      net_Listen = (\<lambda>addr. None)\<rparr>"

text \<open>The states of the example: after the proxy has been started from the initial state,
  and after the file server has been started as well.\<close>

definition proxy_running :: daemon where
  "proxy_running =
     \<lparr>proxyCmd = Some \<lparr>cmd_path = ''/opt/ligolo/proxy'',
                        cmd_args = [''-laddr'', ''127.0.0.1:11601'', ''-selfcert''],
                        cmd_pid = 0\<rparr>,
      fileSrv = None, processes = [0], listeners = [], next_id = 1\<rparr>"

definition both_running :: daemon where
  "both_running =
     proxy_running\<lparr>fileSrv := Some \<lparr>srv_addr = ''0.0.0.0:8000'',
                                     srv_root = ''/home/op/.local/share/PivotOnTheGO/loot'',
                                     srv_listener = 1\<rparr>,
                    listeners := [1], next_id := 2\<rparr>"

section \<open>Facts about the string functions\<close>

lemma Split_nonempty: "Split s c \<noteq> []"
  by (induction s) (auto split: list.splits)

lemma Split_no_sep: "l \<in> set (Split s c) \<Longrightarrow> c \<notin> set l"
  by (induction s arbitrary: l) (auto split: list.splits if_splits)

lemma Split_line: "c \<notin> set r \<Longrightarrow> Split (r @ c # s) c = r # Split s c"
  by (induction r) (auto split: list.splits)

lemma Split_records:
  "(\<And>r. r \<in> set rs \<Longrightarrow> c \<notin> set r) \<Longrightarrow> Split (concat (map (\<lambda>r. r @ [c]) rs)) c = rs @ [[]]"
  by (induction rs) (auto simp: Split_line)

lemma leading_space_TrimLeft: "leading_space (TrimLeft s) = None"
  by (induction s rule: TrimLeft.induct) (subst TrimLeft.simps, auto split: option.splits)

lemma TrimLeft_suffix: "suffix (TrimLeft s) s"
proof (induction s rule: TrimLeft.induct)
  case (1 s)
  show ?case
  proof (cases "leading_space s")
    case None then show ?thesis by (subst TrimLeft.simps) simp
  next
    case (Some e)
    with 1 have "suffix (TrimLeft (drop (length e) s)) (drop (length e) s)" by simp
    then have "suffix (TrimLeft (drop (length e) s)) s"
      using suffix_drop suffix_order.trans by blast
    with Some show ?thesis by (subst TrimLeft.simps) simp
  qed
qed

lemma TrimRight_prefix: "prefix (TrimRight s) s"
proof (induction s rule: TrimRight.induct)
  case (1 s)
  show ?case
  proof (cases "trailing_space s")
    case None then show ?thesis by (subst TrimRight.simps) simp
  next
    case (Some e)
    with 1 have "prefix (TrimRight (take (length s - length e) s)) (take (length s - length e) s)" by simp
    then have "prefix (TrimRight (take (length s - length e) s)) s"
      using take_is_prefix prefix_order.trans by blast
    with Some show ?thesis by (subst TrimRight.simps) simp
  qed
qed

lemma trailing_space_TrimRight: "trailing_space (TrimRight s) = None"
  by (induction s rule: TrimRight.induct) (subst TrimRight.simps, auto split: option.splits)

lemma leading_space_prefix:
  "leading_space s = None \<Longrightarrow> prefix r s \<Longrightarrow> leading_space r = None"
  unfolding leading_space_def find_None_iff
  using prefix_order.trans by blast

lemma leading_space_TrimSpace: "leading_space (TrimSpace s) = None"
  unfolding TrimSpace_def
  using leading_space_prefix [OF leading_space_TrimLeft TrimRight_prefix] .

lemma trailing_space_TrimSpace: "trailing_space (TrimSpace s) = None"
  by (simp add: TrimSpace_def trailing_space_TrimRight)

lemma set_TrimSpace: "set (TrimSpace s) \<subseteq> set s"
proof -
  have "set (TrimRight (TrimLeft s)) \<subseteq> set (TrimLeft s)"
    using TrimRight_prefix set_mono_prefix by blast
  moreover have "set (TrimLeft s) \<subseteq> set s"
    using TrimLeft_suffix set_mono_suffix by blast
  ultimately show ?thesis by (auto simp: TrimSpace_def)
qed

lemma take_token_append: "fst (take_token s) @ snd (take_token s) = s"
  by (induction s) (auto split: prod.splits)

lemma take_token_nonempty:
  "s \<noteq> [] \<Longrightarrow> leading_space s = None \<Longrightarrow> fst (take_token s) \<noteq> []"
  by (cases s) (auto split: prod.splits)

lemma Fields_trimmed:
  "s \<noteq> [] \<Longrightarrow> leading_space s = None \<Longrightarrow> Fields s = fst (take_token s) # Fields (snd (take_token s))"
  by (subst Fields.simps) (auto split: prod.splits)

section \<open>Facts about the normalizers\<close>

lemma render_append: "render (rs @ ss) = render rs @ render ss"
  by (simp add: render_def)

lemma Split_render:
  assumes "\<And>r. r \<in> set rs \<Longrightarrow> LF \<notin> set r"
  shows "Split (render rs) LF = rs @ [[]]"
  unfolding render_def using assms by (rule Split_records)

lemma ssh_stdout_loop_render:
  "ssh_stdout_loop ls buf =
     buf @ render (map (\<lambda>l. ''FILE|'' @ l) (filter (\<lambda>l. l \<noteq> []) (map TrimSpace ls)))"
  by (induction ls arbitrary: buf) (simp_all add: render_def Let_def)

lemma ssh_stderr_loop_render:
  "ssh_stderr_loop ls buf =
     buf @ render (map (\<lambda>l. ''DENIED|'' @ TrimSpace l)
                     (filter (\<lambda>l. Contains l ''Permission denied'') ls))"
  by (induction ls arbitrary: buf) (simp_all add: render_def)

lemma ssh_artifact_render:
  "ssh_artifact stdout stderr = render (ssh_file_records stdout @ ssh_denied_records stderr)"
  by (simp add: ssh_artifact_def ssh_stdout_loop_render ssh_stderr_loop_render
      ssh_file_records_def ssh_denied_records_def render_append)

lemma TrimSpace_line_no_LF: "l \<in> set (Split s LF) \<Longrightarrow> LF \<notin> set (TrimSpace l)"
  using Split_no_sep set_TrimSpace by blast

lemma ssh_records_no_LF:
  "r \<in> set (ssh_file_records stdout @ ssh_denied_records stderr) \<Longrightarrow> LF \<notin> set r"
  by (auto simp: ssh_file_records_def ssh_denied_records_def dest: TrimSpace_line_no_LF)

lemma ssh_artifact_lines:
  "Split (ssh_artifact stdout stderr) LF = ssh_file_records stdout @ ssh_denied_records stderr @ [[]]"
  using Split_render [of "ssh_file_records stdout @ ssh_denied_records stderr"] ssh_records_no_LF
  by (simp add: ssh_artifact_render)

lemma ssh_example_stdout:
  "ssh_file_records ''/etc/passwd\<newline>/etc/shadow\<newline>\<newline>'' = [''FILE|/etc/passwd'', ''FILE|/etc/shadow'']"
  by code_simp

lemma take_token_sub: "set (fst (take_token s)) \<subseteq> set s"
  by (induction s) (auto split: prod.splits)

lemma smb_fields_first:
  assumes "TrimSpace line \<noteq> []"
  shows "0 < length (Fields (TrimSpace line))"
    and "Fields (TrimSpace line) ! 0 = first_token (TrimSpace line)"
  using Fields_trimmed [OF assms leading_space_TrimSpace] by (simp_all add: first_token_def)

lemma smb_loop_render:
  "smb_loop ls buf = buf @ render (List.map_filter smb_record ls)"
proof (induction ls arbitrary: buf)
  case Nil
  show ?case by (simp add: render_def List.map_filter_simps)
next
  case (Cons line rest)
  show ?case
  proof (cases "TrimSpace line = []")
    case True
    then show ?thesis
      by (simp add: Cons smb_record_def List.map_filter_simps)
  next
    case False
    note f = smb_fields_first [OF False]
    from False f show ?thesis
      by (simp add: Cons smb_record_def List.map_filter_simps Let_def render_def)
  qed
qed

lemma smb_artifact_render:
  "smb_artifact raw = render (List.map_filter smb_record (Split raw LF))"
  by (simp add: smb_artifact_def smb_loop_render)

lemma smb_record_no_LF:
  assumes "line \<in> set (Split raw LF)" and "smb_record line = Some r"
  shows "LF \<notin> set r"
proof -
  have t: "LF \<notin> set (TrimSpace line)"
    using assms(1) by (rule TrimSpace_line_no_LF)
  then have "LF \<notin> set (first_token (TrimSpace line))"
    using take_token_sub [of "TrimSpace line"] by (auto simp: first_token_def)
  with t assms(2) show ?thesis
    by (auto simp: smb_record_def Let_def split: if_splits)
qed

lemma smb_artifact_lines:
  "Split (smb_artifact raw) LF = List.map_filter smb_record (Split raw LF) @ [[]]"
proof -
  have "\<And>r. r \<in> set (List.map_filter smb_record (Split raw LF)) \<Longrightarrow> LF \<notin> set r"
    by (auto simp: List.map_filter_def dest: smb_record_no_LF)
  then show ?thesis
    by (simp add: smb_artifact_render Split_render)
qed

section \<open>Facts about paths\<close>

lemma clean_stack_tl: "clean_stack rooted st \<Longrightarrow> clean_stack rooted (tl st)"
  by (cases st) simp_all

lemma clean_stack_dotdot:
  "clean_stack rooted st \<Longrightarrow> st \<noteq> [] \<Longrightarrow> hd st = ''..'' \<Longrightarrow> \<forall>x \<in> set st. x = ''..''"
  by (cases st) auto

lemma clean_step_stack:
  assumes "clean_stack rooted st" and "CHR ''/'' \<notin> set e"
  shows "clean_stack rooted (clean_step rooted st e)"
proof -
  consider "e = [] \<or> e = ''.''" | "e = ''..''" | "e \<noteq> []" "e \<noteq> ''.''" "e \<noteq> ''..''"
    by blast
  then show ?thesis
  proof cases
    case 1
    with assms show ?thesis by (auto simp: clean_step_def)
  next
    case 2
    show ?thesis
    proof (cases "st \<noteq> [] \<and> hd st \<noteq> ''..''")
      case True
      with 2 assms show ?thesis by (simp add: clean_step_def clean_stack_tl)
    next
      case False
      then have "\<forall>x \<in> set st. x = ''..''"
        using clean_stack_dotdot [OF assms(1)] by (cases st) auto
      with 2 False assms show ?thesis by (auto simp: clean_step_def)
    qed
  next
    case 3
    with assms show ?thesis by (simp add: clean_step_def)
  qed
qed

lemma clean_fold_stack:
  "clean_stack rooted st \<Longrightarrow> (\<And>e. e \<in> set es \<Longrightarrow> CHR ''/'' \<notin> set e) \<Longrightarrow>
   clean_stack rooted (foldl (clean_step rooted) st es)"
  by (induction es arbitrary: st) (simp_all add: clean_step_stack)

lemma clean_stack_replay:
  "clean_stack rooted st \<Longrightarrow> foldl (clean_step rooted) [] (rev st) = st"
proof (induction st)
  case Nil
  show ?case by simp
next
  case (Cons e st)
  then have ih: "foldl (clean_step rooted) [] (rev st) = st" by simp
  from Cons.prems have e: "e \<noteq> []" "e \<noteq> ''.''"
    and dd: "e = ''..'' \<longrightarrow> \<not> rooted \<and> (\<forall>x \<in> set st. x = ''..'')"
    by simp_all
  have "clean_step rooted st e = e # st"
  proof (cases "e = ''..''")
    case True
    with dd have nr: "\<not> rooted" and top: "\<not> (st \<noteq> [] \<and> hd st \<noteq> ''..'')"
      by (cases st; simp)+
    show ?thesis
      unfolding clean_step_def using e nr top True by presburger
  next
    case False
    with e show ?thesis
      unfolding clean_step_def by presburger
  qed
  with ih show ?case by simp
qed

lemma Split_append:
  "Split (a @ c # b) c = Split a c @ Split b c"
  by (induction a) (auto split: list.splits simp: Split_nonempty)

lemma Split_no_sep_id: "c \<notin> set e \<Longrightarrow> Split e c = [e]"
  by (induction e) auto

lemma Split_strings_Join:
  "xs \<noteq> [] \<Longrightarrow> (\<And>e. e \<in> set xs \<Longrightarrow> c \<notin> set e) \<Longrightarrow> Split (strings_Join xs [c]) c = xs"
proof (induction xs "[c]" rule: strings_Join.induct)
  case 1
  then show ?case by simp
next
  case (2 x)
  then show ?case by (simp add: Split_no_sep_id)
next
  case (3 x y ys)
  then show ?case by (simp add: Split_append Split_no_sep_id)
qed

lemma strings_Join_Nil: "strings_Join xs sep = [] \<Longrightarrow> \<forall>e \<in> set xs. e \<noteq> [] \<Longrightarrow> xs = []"
  by (induction xs sep rule: strings_Join.induct) auto

lemma strings_Join_hd:
  "xs \<noteq> [] \<Longrightarrow> hd xs \<noteq> [] \<Longrightarrow> hd (strings_Join xs sep) = hd (hd xs)"
  by (induction xs sep rule: strings_Join.induct) auto

lemma clean_stack_elems:
  "clean_stack rooted st \<Longrightarrow> e \<in> set st \<Longrightarrow> e \<noteq> [] \<and> e \<noteq> ''.'' \<and> CHR ''/'' \<notin> set e"
  by (induction st) auto

lemma Clean_eq_out:
  "path \<noteq> [] \<Longrightarrow>
   Clean path = clean_out (hd path = CHR ''/'')
                  (foldl (clean_step (hd path = CHR ''/'')) [] (Split path CHR ''/''))"
  by (simp add: Clean_def clean_out_def Let_def)

lemma Clean_stack:
  "clean_stack (hd path = CHR ''/'') (foldl (clean_step (hd path = CHR ''/'')) [] (Split path CHR ''/''))"
  by (rule clean_fold_stack) (auto dest: Split_no_sep)

lemma clean_out_nonempty: "clean_out rooted st \<noteq> []"
  by (simp add: clean_out_def Let_def)

lemma Clean_clean_out:
  assumes "clean_stack rooted st"
  shows "Clean (clean_out rooted st) = clean_out rooted st"
proof -
  let ?xs = "rev st"
  let ?p = "strings_Join ?xs ''/''"
  have el: "\<And>e. e \<in> set ?xs \<Longrightarrow> e \<noteq> [] \<and> CHR ''/'' \<notin> set e"
    using clean_stack_elems [OF assms] by auto
  have replay: "foldl (clean_step rooted) [] ?xs = st"
    using assms by (rule clean_stack_replay)
  show ?thesis
  proof (cases "st = []")
    case True
    show ?thesis
    proof (cases rooted)
      case True
      with \<open>st = []\<close> have "clean_out rooted st = ''/''"
        by (simp add: clean_out_def)
      moreover have "Clean ''/'' = ''/''"
        by (simp add: Clean_def clean_step_def)
      ultimately show ?thesis by simp
    next
      case False
      with \<open>st = []\<close> have "clean_out rooted st = ''.''"
        by (simp add: clean_out_def)
      moreover have "Clean ''.'' = ''.''"
        by (simp add: Clean_def clean_step_def)
      ultimately show ?thesis by simp
    qed
  next
    case ne: False
    then have xs_ne: "?xs \<noteq> []" by simp
    have sp: "Split ?p CHR ''/'' = ?xs"
      using Split_strings_Join [OF xs_ne, of "CHR ''/''"] el by simp
    have p_ne: "?p \<noteq> []"
      using strings_Join_Nil [of ?xs "''/''"] el xs_ne by blast
    have "hd ?xs \<in> set ?xs"
      using xs_ne by (rule hd_in_set)
    then have h: "hd ?xs \<noteq> []" "CHR ''/'' \<notin> set (hd ?xs)"
      using el by blast+
    then have "hd (hd ?xs) \<in> set (hd ?xs)"
      by simp
    with h have "hd (hd ?xs) \<noteq> CHR ''/''"
      by metis
    then have hd_p: "hd ?p \<noteq> CHR ''/''"
      using strings_Join_hd [OF xs_ne h(1), of "''/''"] by simp
    show ?thesis
    proof (cases rooted)
      case True
      then have out: "clean_out rooted st = CHR ''/'' # ?p"
        by (simp add: clean_out_def)
      have "Split (CHR ''/'' # ?p) CHR ''/'' = [] # ?xs"
        using sp by simp
      then have "foldl (clean_step True) [] (Split (CHR ''/'' # ?p) CHR ''/'') = st"
        using replay True by (simp add: clean_step_def)
      then have "Clean (CHR ''/'' # ?p) = CHR ''/'' # ?p"
        unfolding Clean_def by (simp del: Split.simps)
      with out show ?thesis by simp
    next
      case False
      with p_ne have out: "clean_out rooted st = ?p"
        by (simp add: clean_out_def)
      have "foldl (clean_step False) [] (Split ?p CHR ''/'') = st"
        using replay False sp by simp
      then have "Clean ?p = ?p"
        unfolding Clean_def using p_ne hd_p by (simp del: Split.simps)
      with out show ?thesis by simp
    qed
  qed
qed

lemma Clean_idem: "Clean (Clean path) = Clean path"
proof (cases "path = []")
  case True
  then show ?thesis by (simp add: Clean_def clean_step_def)
next
  case False
  then show ?thesis
    using Clean_clean_out [OF Clean_stack [of path]] by (simp add: Clean_eq_out)
qed

lemma Clean_nonempty: "Clean path \<noteq> []"
  by (simp add: Clean_def Let_def)

lemma strings_Join_append_hd:
  "a \<noteq> [] \<Longrightarrow> strings_Join (a # es) sep \<noteq> [] \<and> hd (strings_Join (a # es) sep) = hd a"
  by (cases es) auto

lemma Clean_parent_of_child:
  assumes "loot \<noteq> []" and "child \<noteq> []" and "child \<noteq> ''.''" and "child \<noteq> ''..''"
    and "CHR ''/'' \<notin> set child"
  shows "Clean (loot @ ''/'' @ child @ ''/..'') = Clean loot"
proof -
  let ?r = "hd loot = CHR ''/''"
  let ?q = "loot @ ''/'' @ child @ ''/..''"
  have q: "?q \<noteq> []" "hd ?q = hd loot"
    using assms(1) by simp_all
  have "Split (child @ ''/..'') CHR ''/'' = [child, ''..'']"
    using Split_append [of child "CHR ''/''" "''..''"] assms(5)
    by (simp add: Split_no_sep_id)
  then have sp: "Split ?q CHR ''/'' = Split loot CHR ''/'' @ [child, ''..'']"
    using Split_append [of loot "CHR ''/''" "child @ ''/..''"] by simp
  have "clean_step ?r (clean_step ?r st child) ''..'' = st" for st
    using assms by (simp add: clean_step_def)
  then have "foldl (clean_step ?r) [] (Split loot CHR ''/'' @ [child, ''..''])
      = foldl (clean_step ?r) [] (Split loot CHR ''/'')"
    by simp
  then show ?thesis
    unfolding Clean_eq_out [OF q(1)] Clean_eq_out [OF assms(1)] q(2) sp by simp
qed

section \<open>Facts about the runner\<close>

lemma effective_request_fields:
  "Host (effective_request req) = Host req"
  "Protocol (effective_request req) = Protocol req"
  "Username (effective_request req) = Username req"
  "Password (effective_request req) = Password req"
  "SMBShare (effective_request req) = SMBShare req"
  "StartDir (effective_request req) = StartDir req"
  "Port (effective_request req) = Port req"
  by (simp_all add: effective_request_def Let_def)

lemma RunFSScout_unfold:
  "RunFSScout w req =
     (if Host req = [] then ((no_result, Some (ErrorString ''host is required'')), [])
      else if Username req = [] \<or> Password req = []
      then ((no_result, Some (ErrorString ''username and password are required'')), [])
      else if StartDir req = []
      then ((no_result, Some (ErrorString ''start directory is required'')), [])
      else case DefaultLootDir w of
             (Inl err, t1) \<Rightarrow> ((no_result, Some err), t1)
           | (Inr lootDir, t1) \<Rightarrow>
               (case mkdir_all w (fs_base lootDir req) of
                  Some err \<Rightarrow> ((no_result, Some err), t1 @ [EMkdirAll (fs_base lootDir req)])
                | None \<Rightarrow>
                    (case dispatch w (effective_request req) (out_path w lootDir req) of
                       (runErr, t2) \<Rightarrow>
                         ((\<lparr>OutputFile = out_path w lootDir req, ResProtocol = Protocol req,
                            ResMode = Mode (effective_request req), ResHost = Host req,
                            ResError = (case runErr of None \<Rightarrow> [] | Some e \<Rightarrow> Error e)\<rparr>,
                           runErr),
                          t1 @ [EMkdirAll (fs_base lootDir req), ETimeNow] @ t2))))"
  unfolding RunFSScout_def fs_base_def out_path_def effective_request_def
  by (simp add: Let_def split: prod.splits sum.splits option.splits del: filepath_Join.simps)

lemma RunFSScout_invalid:
  assumes "\<not> request_valid req"
  shows "RunFSScout w req =
     ((no_result,
       Some (ErrorString
         (if Host req = [] then ''host is required''
          else if Username req = [] \<or> Password req = [] then ''username and password are required''
          else ''start directory is required''))), [])"
  using assms unfolding RunFSScout_unfold request_valid_def by auto

lemma RunFSScout_no_loot:
  assumes "request_valid req" and "DefaultLootDir w = (Inl err, t1)"
  shows "RunFSScout w req = ((no_result, Some err), t1)"
  using assms unfolding RunFSScout_unfold request_valid_def by simp

lemma RunFSScout_no_dir:
  assumes "request_valid req" and "DefaultLootDir w = (Inr lootDir, t1)"
    and "mkdir_all w (fs_base lootDir req) = Some err"
  shows "RunFSScout w req = ((no_result, Some err), t1 @ [EMkdirAll (fs_base lootDir req)])"
  using assms unfolding RunFSScout_unfold request_valid_def by simp

lemma RunFSScout_dispatch:
  assumes "request_valid req" and "DefaultLootDir w = (Inr lootDir, t1)"
    and "mkdir_all w (fs_base lootDir req) = None"
    and "dispatch w (effective_request req) (out_path w lootDir req) = (runErr, t2)"
  shows "RunFSScout w req =
     ((\<lparr>OutputFile = out_path w lootDir req, ResProtocol = Protocol req,
        ResMode = Mode (effective_request req), ResHost = Host req,
        ResError = (case runErr of None \<Rightarrow> [] | Some e \<Rightarrow> Error e)\<rparr>, runErr),
      t1 @ [EMkdirAll (fs_base lootDir req), ETimeNow] @ t2)"
  using assms unfolding RunFSScout_unfold request_valid_def by simp

lemma DefaultLootDir_cases:
  obtains err t where "DefaultLootDir w = (Inl err, t)"
  | lootDir t where "DefaultLootDir w = (Inr lootDir, t)"
  by (metis prod.exhaust sum.exhaust_sel)

lemma DefaultLootDir_trace:
  "e \<in> set (snd (DefaultLootDir w)) \<Longrightarrow> e = EUserHomeDir \<or> (\<exists>p. e = EStat p)"
  unfolding DefaultLootDir_def DefaultAppDataDir_def LegacyAppDataDirPath_def
  by (auto simp: Let_def split: sum.splits if_splits prod.splits)

lemma filepath_Join_Clean:
  "e \<noteq> [] \<Longrightarrow> Clean (filepath_Join (e # es)) = filepath_Join (e # es)"
  by (simp add: Clean_idem)

lemma filepath_Join_singleton_Clean: "Clean p = p \<Longrightarrow> p \<noteq> [] \<Longrightarrow> filepath_Join (p # es) = Clean (strings_Join (p # es) ''/'')"
  by simp

lemma DefaultAppDataDir_clean:
  "DefaultAppDataDir w = (Inr base, t) \<Longrightarrow> base \<noteq> [] \<and> Clean base = base"
proof -
  have j: "filepath_Join [h, a, b, c] \<noteq> [] \<and> Clean (filepath_Join [h, a, b, c]) = filepath_Join [h, a, b, c]"
    if "a \<noteq> []" for h a b c :: string
    using that by (cases "h = []") (simp_all add: Clean_idem Clean_nonempty)
  assume "DefaultAppDataDir w = (Inr base, t)"
  then show ?thesis
    unfolding DefaultAppDataDir_def LegacyAppDataDirPath_def
    using j [of "''.local''" _ "''share''"]
    by (auto simp: Let_def simp del: filepath_Join.simps split: sum.splits if_splits)
qed

lemma DefaultLootDir_clean:
  assumes "DefaultLootDir w = (Inr lootDir, t)"
  shows "lootDir \<noteq> [] \<and> Clean lootDir = lootDir"
proof -
  from assms obtain base where b: "DefaultAppDataDir w = (Inr base, t)"
    and l: "lootDir = filepath_Join [base, ''loot'']"
    unfolding DefaultLootDir_def by (auto split: prod.splits sum.splits)
  from DefaultAppDataDir_clean [OF b] have "base \<noteq> []" by simp
  with l show ?thesis
    by (simp add: Clean_idem Clean_nonempty)
qed

section \<open>Facts about \<open>sanitizeHost\<close>\<close>

lemma ReplaceAll_byte: "ReplaceAll s [a] [b] = map (\<lambda>c. if c = a then b else c) s"
proof (induction s)
  case Nil
  show ?case by (subst ReplaceAll.simps) simp
next
  case (Cons c cs)
  then show ?case by (subst ReplaceAll.simps) auto
qed

lemma sanitizeHost_map:
  "sanitizeHost h =
     map (\<lambda>c. if c = CHR '':'' \<or> c = CHR ''/'' then CHR ''_'' else c) (TrimSpace h)"
  by (simp add: sanitizeHost_def ReplaceAll_byte Let_def)

lemma TrimLeft_keeps:
  assumes "\<And>e. e \<in> set space_runes \<Longrightarrow> c \<notin> set e"
  shows "filter (\<lambda>x. x = c) (TrimLeft s) = filter (\<lambda>x. x = c) s"
proof (induction s rule: TrimLeft.induct)
  case (1 s)
  show ?case
  proof (cases "leading_space s")
    case None
    then show ?thesis by (subst TrimLeft.simps) simp
  next
    case (Some e)
    then have "e \<in> set space_runes" and "prefix e s"
      using leading_space_Some by blast+
    then have "c \<notin> set e" and s: "s = e @ drop (length e) s"
      using assms by (auto simp: prefix_def)
    then have "filter (\<lambda>x. x = c) s = filter (\<lambda>x. x = c) (drop (length e) s)"
      by (metis (mono_tags, lifting) filter_False filter_append self_append_conv2)
    with 1 Some show ?thesis by (subst TrimLeft.simps) simp
  qed
qed

lemma TrimRight_keeps:
  assumes "\<And>e. e \<in> set space_runes \<Longrightarrow> c \<notin> set e"
  shows "filter (\<lambda>x. x = c) (TrimRight s) = filter (\<lambda>x. x = c) s"
proof (induction s rule: TrimRight.induct)
  case (1 s)
  show ?case
  proof (cases "trailing_space s")
    case None
    then show ?thesis by (subst TrimRight.simps) simp
  next
    case (Some e)
    then have "e \<in> set space_runes" and "suffix e s"
      using trailing_space_Some by blast+
    then have "c \<notin> set e" and s: "s = take (length s - length e) s @ e"
      using assms by (auto simp: suffix_def)
    then have "filter (\<lambda>x. x = c) s = filter (\<lambda>x. x = c) (take (length s - length e) s)"
      by (metis (mono_tags, lifting) filter_False filter_append append_Nil2)
    with 1 Some show ?thesis by (subst TrimRight.simps) simp
  qed
qed

lemma dot_not_space: "e \<in> set space_runes \<Longrightarrow> CHR ''.'' \<notin> set e"
  by (auto simp: space_runes_def)

lemma TrimSpace_dots:
  "filter (\<lambda>x. x = CHR ''.'') (TrimSpace s) = filter (\<lambda>x. x = CHR ''.'') s"
  by (simp add: TrimSpace_def TrimLeft_keeps TrimRight_keeps dot_not_space)

lemma sanitizeHost_dots:
  "filter (\<lambda>x. x = CHR ''.'') (sanitizeHost h) = filter (\<lambda>x. x = CHR ''.'') h"
proof -
  let ?f = "\<lambda>c. if c = CHR '':'' \<or> c = CHR ''/'' then CHR ''_'' else c"
  have "filter (\<lambda>x. x = CHR ''.'') (map ?f xs) = filter (\<lambda>x. x = CHR ''.'') xs" for xs
    by (induction xs) auto
  then show ?thesis
    by (simp only: sanitizeHost_map TrimSpace_dots)
qed

lemma sanitizeHost_dotdot: "sanitizeHost ''..'' = ''..''"
proof -
  have "TrimSpace ''..'' = ''..''" by code_simp
  then show ?thesis by (simp add: sanitizeHost_map)
qed

lemma filepath_Join_parent:
  assumes "loot \<noteq> []"
  shows "filepath_Join [loot, ''fs'', ''..''] = Clean loot"
  using Clean_parent_of_child [OF assms, of "''fs''"] assms by simp

lemma strings_Join_snoc:
  "xs \<noteq> [] \<Longrightarrow> strings_Join (xs @ [x]) sep = strings_Join xs sep @ sep @ x"
  by (induction xs sep rule: strings_Join.induct) auto

lemma clean_out_push:
  assumes "clean_stack rooted st" and "x \<noteq> []"
  shows "clean_out rooted (x # st) =
     (if st = [] then (if rooted then CHR ''/'' # x else x)
      else clean_out rooted st @ ''/'' @ x)"
proof (cases "st = []")
  case True
  with assms show ?thesis by (simp add: clean_out_def Let_def)
next
  case False
  then have j: "strings_Join (rev st @ [x]) ''/'' = strings_Join (rev st) ''/'' @ ''/'' @ x"
    by (simp add: strings_Join_snoc)
  have "strings_Join (rev st) ''/'' \<noteq> []"
    using strings_Join_Nil [of "rev st" "''/''"] clean_stack_elems [OF assms(1)] False by auto
  with j False show ?thesis by (simp add: clean_out_def Let_def)
qed

lemma filepath_Join_child:
  assumes "Clean p = p" and "x \<noteq> []" and "x \<noteq> ''.''" and "x \<noteq> ''..''"
    and "CHR ''/'' \<notin> set x"
  shows "filepath_Join [p, x] = p @ ''/'' @ x \<or> filepath_Join [p, x] = CHR ''/'' # x
       \<or> filepath_Join [p, x] = x"
proof -
  have p: "p \<noteq> []" using assms(1) Clean_nonempty by metis
  let ?r = "hd p = CHR ''/''"
  let ?st = "foldl (clean_step ?r) [] (Split p CHR ''/'')"
  let ?q = "p @ ''/'' @ x"
  have st: "clean_stack ?r ?st" by (rule Clean_stack)
  have pc: "p = clean_out ?r ?st"
    using assms(1) Clean_eq_out [OF p] by simp
  have q: "?q \<noteq> []" "hd ?q = hd p" using p by simp_all
  have "Split ?q CHR ''/'' = Split p CHR ''/'' @ [x]"
    using Split_append [of p "CHR ''/''" x] assms(5) by (simp add: Split_no_sep_id)
  moreover have "clean_step ?r ?st x = x # ?st"
    unfolding clean_step_def using assms(2-4) by presburger
  ultimately have "Clean ?q = clean_out ?r (x # ?st)"
    unfolding Clean_eq_out [OF q(1)] q(2) by simp
  also have "\<dots> = (if ?st = [] then (if ?r then CHR ''/'' # x else x)
      else clean_out ?r ?st @ ''/'' @ x)"
    using clean_out_push [OF st assms(2)] .
  finally have "Clean ?q = (if ?st = [] then (if ?r then CHR ''/'' # x else x) else p @ ''/'' @ x)"
    using pc by simp
  moreover have "filepath_Join [p, x] = Clean ?q"
    using p by simp
  ultimately show ?thesis by presburger
qed

lemma filepath_Join_child_outside:
  assumes "Clean p = p" and "x \<noteq> []" and "x \<noteq> ''.''" and "x \<noteq> ''..''"
    and "CHR ''/'' \<notin> set x"
  shows "\<not> prefix (p @ ''/fs/'') (filepath_Join [p, x])"
proof
  assume pre: "prefix (p @ ''/fs/'') (filepath_Join [p, x])"
  from filepath_Join_child [OF assms]
  consider "filepath_Join [p, x] = p @ ''/'' @ x" | "filepath_Join [p, x] = CHR ''/'' # x"
    | "filepath_Join [p, x] = x" by blast
  then show False
  proof cases
    case 1
    with pre have "prefix ''fs/'' x" by simp
    then have "CHR ''/'' \<in> set x" by (auto simp: prefix_def)
    with assms(5) show False by simp
  next
    case 2
    with pre have "set (p @ ''/fs/'') \<subseteq> set (CHR ''/'' # x)"
      using set_mono_prefix by metis
    moreover have "length (p @ ''/fs/'') \<le> length (CHR ''/'' # x)"
      using pre 2 prefix_length_le by metis
    ultimately show False
      using pre 2 assms(5) by (cases p) (auto simp: prefix_def Cons_eq_append_conv)
  next
    case 3
    with pre have "set (p @ ''/fs/'') \<subseteq> set x"
      using set_mono_prefix by metis
    with assms(5) show False by auto
  qed
qed

section \<open>Facts about the backends\<close>

lemma runFSScoutSSH_unfold:
  "runFSScoutSSH w req outPath =
     (let p = run_cmd w ''ssh'' (ssh_args req);
          content = ssh_artifact (captured Stdout p) (captured Stderr p)
      in (backend_report ''ssh'' (run_err p) (write_file w outPath content),
          [EExec ''ssh'' (ssh_args req), EWriteFile outPath content]))"
  by (simp add: runFSScoutSSH_def writeFSScoutOutputSSH_def backend_report_def Let_def split: option.splits)

lemma runFSScoutSMB_unfold:
  "SMBShare req \<noteq> [] \<Longrightarrow>
   runFSScoutSMB w req outPath =
     (let p = run_cmd w ''smbclient'' (smb_args req);
          content = smb_artifact (merged p)
      in (backend_report ''smbclient'' (run_err p) (write_file w outPath content),
          [EExec ''smbclient'' (smb_args req), EWriteFile outPath content]))"
  by (simp add: runFSScoutSMB_def parseAndWriteSMBOutput_def backend_report_def Let_def split: option.splits)

lemma runFSScoutEvilWinRM_unfold:
  "runFSScoutEvilWinRM w req outPath =
     (let p = run_cmd w ''evil-winrm'' (winrm_args req);
          content = generic_artifact (merged p)
      in (backend_report ''evil-winrm'' (run_err p) (write_file w outPath content),
          [EExec ''evil-winrm'' (winrm_args req), EWriteFile outPath content]))"
  by (simp add: runFSScoutEvilWinRM_def parseAndWriteFSOutputGeneric_def backend_report_def Let_def split: option.splits)

lemma dispatch_ftp:
  "Protocol req = FSProtocolFTP \<Longrightarrow>
   dispatch w req outPath =
     (Some (ErrorString ''FTP auto-scout not implemented yet; use generate-only / manual mode''), [])"
  by (simp add: dispatch_def FSProtocolFTP_def FSProtocolSSH_def FSProtocolSMB_def)

lemma dispatch_smb_no_share:
  "Protocol req = FSProtocolSMB \<Longrightarrow> SMBShare req = [] \<Longrightarrow>
   dispatch w req outPath =
     (Some (ErrorString ''SMB share name is required for smb protocol''), [])"
  by (simp add: dispatch_def FSProtocolSSH_def FSProtocolSMB_def runFSScoutSMB_def)

lemma dispatch_ssh:
  "Protocol req = FSProtocolSSH \<Longrightarrow> dispatch w req outPath = runFSScoutSSH w req outPath"
  by (simp add: dispatch_def)

lemma ssh_args_password:
  assumes "r1\<lparr>Password := []\<rparr> = r2\<lparr>Password := []\<rparr>"
  shows "ssh_args r1 = ssh_args r2"
proof -
  have "Port (r1\<lparr>Password := []\<rparr>) = Port (r2\<lparr>Password := []\<rparr>)"
    and "Depth (r1\<lparr>Password := []\<rparr>) = Depth (r2\<lparr>Password := []\<rparr>)"
    and "Username (r1\<lparr>Password := []\<rparr>) = Username (r2\<lparr>Password := []\<rparr>)"
    and "Host (r1\<lparr>Password := []\<rparr>) = Host (r2\<lparr>Password := []\<rparr>)"
    and "StartDir (r1\<lparr>Password := []\<rparr>) = StartDir (r2\<lparr>Password := []\<rparr>)"
    using assms by simp_all
  then show ?thesis
    by (simp add: ssh_args_def)
qed

lemma effective_request_password:
  "effective_request (r\<lparr>Password := p\<rparr>) = (effective_request r)\<lparr>Password := p\<rparr>"
  by (simp add: effective_request_def Let_def)

lemma same_but_password:
  assumes "r1\<lparr>Password := []\<rparr> = r2\<lparr>Password := []\<rparr>"
  shows "r2 = r1\<lparr>Password := Password r2\<rparr>"
proof -
  have "r2 = (r2\<lparr>Password := []\<rparr>)\<lparr>Password := Password r2\<rparr>" by simp
  also have "\<dots> = (r1\<lparr>Password := []\<rparr>)\<lparr>Password := Password r2\<rparr>"
    using assms by simp
  finally show ?thesis by simp
qed

lemma RunFSScout_ssh_password:
  assumes "Protocol r = FSProtocolSSH" and "p1 \<noteq> []" and "p2 \<noteq> []"
  shows "RunFSScout w (r\<lparr>Password := p1\<rparr>) = RunFSScout w (r\<lparr>Password := p2\<rparr>)"
proof -
  have args: "ssh_args ((effective_request r)\<lparr>Password := p1\<rparr>)
      = ssh_args ((effective_request r)\<lparr>Password := p2\<rparr>)"
    by (rule ssh_args_password) simp
  have d: "dispatch w (effective_request (r\<lparr>Password := p1\<rparr>)) out
      = dispatch w (effective_request (r\<lparr>Password := p2\<rparr>)) out" for out
    using assms(1) args
    by (simp add: dispatch_ssh effective_request_fields effective_request_password
        runFSScoutSSH_unfold)
  have b: "fs_base l (r\<lparr>Password := p1\<rparr>) = fs_base l (r\<lparr>Password := p2\<rparr>)" for l
    by (simp add: fs_base_def)
  have m: "Mode (effective_request (r\<lparr>Password := p1\<rparr>)) = Mode (effective_request (r\<lparr>Password := p2\<rparr>))"
    by (simp add: effective_request_password)
  have o: "out_path w l (r\<lparr>Password := p1\<rparr>) = out_path w l (r\<lparr>Password := p2\<rparr>)" for l
    by (simp add: out_path_def fs_base_def effective_request_password)
  show ?thesis
    unfolding RunFSScout_unfold d b m o using assms(2,3)
    by (simp split: prod.splits sum.splits option.splits)
qed

section \<open>Facts about the coordinator\<close>

lemma coherent_initial: "coherent initial"
  by (simp add: coherent_def initial_def)

lemma coherent_StartProxy:
  "coherent s \<Longrightarrow> coherent (snd (handleStartProxy e m s))"
  by (auto simp: coherent_def handleStartProxy_def StartProxy_def Let_def
      split: option.splits sum.splits prod.splits)

lemma coherent_StopProxy:
  "coherent s \<Longrightarrow> coherent (snd (handleStopProxy e m s))"
  by (auto simp: coherent_def handleStopProxy_def split: option.splits)

lemma coherent_FileStart:
  "coherent s \<Longrightarrow> coherent (snd (handleFileStart e m s))"
  by (auto simp: coherent_def handleFileStart_def Let_def split: option.splits)

lemma coherent_FileStop:
  "coherent s \<Longrightarrow> coherent (snd (handleFileStop e m s))"
  by (auto simp: coherent_def handleFileStop_def split: option.splits)

lemma coherent_serve: "coherent s \<Longrightarrow> coherent (snd (serve r e m s))"
  by (cases r)
    (simp_all add: coherent_StartProxy coherent_StopProxy coherent_FileStart coherent_FileStop
      handleStatus_def handleFileStatus_def)

lemma coherent_run: "coherent s \<Longrightarrow> coherent (run reqs s)"
  by (induction reqs arbitrary: s) (auto simp: coherent_serve)

lemma coherent_one:
  assumes "coherent s"
  shows "length (processes s) \<le> 1" and "length (listeners s) \<le> 1"
    and "processes s \<noteq> [] \<longleftrightarrow> proxyCmd s \<noteq> None"
    and "listeners s \<noteq> [] \<longleftrightarrow> fileSrv s \<noteq> None"
  using assms by (auto simp: coherent_def split: option.splits)

lemma StartProxy_conflict:
  "proxyCmd s \<noteq> None \<Longrightarrow>
   handleStartProxy e MethodPost s = (respondError 409 ''proxy already running'', s)"
  by (simp add: handleStartProxy_def StatusConflict_def)

lemma FileStart_conflict:
  "fileSrv s \<noteq> None \<Longrightarrow>
   handleFileStart e MethodPost s = (respondError 409 ''file server already running'', s)"
  by (simp add: handleFileStart_def StatusConflict_def)

lemma StartProxy_started:
  assumes "Status (fst (handleStartProxy e m s)) = 200"
  shows "proxyCmd (snd (handleStartProxy e m s)) \<noteq> None"
    and "fst (handleStartProxy e m s) = respondJSON 200 [(''status'', JString ''started'')]"
    and "proxyCmd s = None"
  using assms
  by (auto simp: handleStartProxy_def StartProxy_def Let_def respondError_def respondJSON_def
      StatusOK_def StatusConflict_def StatusMethodNotAllowed_def StatusInternalServerError_def
      split: option.splits sum.splits prod.splits if_splits)

lemma FileStart_started:
  assumes "Status (fst (handleFileStart e m s)) = 200"
  shows "fileSrv (snd (handleFileStart e m s)) \<noteq> None"
    and "fst (handleFileStart e m s) = respondJSON 200 [(''status'', JString ''started'')]"
    and "fileSrv s = None"
  using assms
  by (auto simp: handleFileStart_def Let_def respondError_def respondJSON_def
      StatusOK_def StatusConflict_def StatusMethodNotAllowed_def StatusInternalServerError_def
      StatusBadRequest_def
      split: option.splits if_splits)

lemma StartProxy_status:
  assumes "proxyCmd s = None"
  shows "Status (fst (handleStartProxy e MethodPost s)) = 200 \<longleftrightarrow> proxy_can_start e"
    and "\<not> proxy_can_start e \<Longrightarrow> snd (handleStartProxy e MethodPost s) = s"
  using assms
  by (auto simp: handleStartProxy_def StartProxy_def proxy_can_start_def Let_def
      respondError_def respondJSON_def StatusOK_def StatusInternalServerError_def
      split: option.splits)

lemma FileStart_status:
  assumes "fileSrv s = None"
  shows "Status (fst (handleFileStart e MethodPost s)) = 200 \<longleftrightarrow> file_server_can_start e"
    and "\<not> file_server_can_start e \<Longrightarrow> snd (handleFileStart e MethodPost s) = s"
  using assms
  by (auto simp: handleFileStart_def file_server_can_start_def Let_def
      respondError_def respondJSON_def StatusOK_def StatusInternalServerError_def
      StatusBadRequest_def
      split: option.splits)

lemma example_start_proxy:
  "handleStartProxy example_env MethodPost initial
     = (respondJSON 200 [(''status'', JString ''started'')], proxy_running)"
  by (simp add: handleStartProxy_def example_env_def initial_def load_or_default_def
      StartProxy_def DefaultConfig_def StatusOK_def itoa_def digits.simps proxy_running_def)

lemma example_start_file:
  "handleFileStart example_env MethodPost proxy_running
     = (respondJSON 200 [(''status'', JString ''started'')], both_running)"
  by (simp add: handleFileStart_def example_env_def load_or_default_def
      DefaultConfig_def StatusOK_def itoa_def digits.simps proxy_running_def both_running_def)

lemma example_run_both:
  "run [(StartProxyR, example_env, ''POST''), (FileStartR, example_env, ''POST'')] initial
     = both_running"
  using example_start_proxy example_start_file by (simp add: MethodPost_def)

section \<open>The coordinator: the claims\<close>

text \<open>
  C1.  For each managed-service kind at most one live handle exists at any time, and the
  handle is the single source of truth for running: in every state the daemon reaches
  from its initial state, whatever the requests and the environment, at most one
  process and one listener are live, each exactly when its handle exists, and the status
  endpoints report the existence of the handle.  A Start (a \<open>POST\<close>) while a handle exists
  answers 409 and changes nothing: no process or listener is created and the existing
  one is untouched.  So of two Starts in a row with no handle at first, when the
  environment lets the first one succeed it answers 200 and the second is a conflict
  that leaves the state of the first: one success and one conflict.  (A Start that the
  environment makes fail answers neither 200 nor 409, and leaves no handle.)
\<close>

theorem single_instance:
  "coherent (run reqs initial)
   \<and> length (processes (run reqs initial)) \<le> 1
   \<and> length (listeners (run reqs initial)) \<le> 1
   \<and> (processes (run reqs initial) \<noteq> [] \<longleftrightarrow> proxyCmd (run reqs initial) \<noteq> None)
   \<and> (listeners (run reqs initial) \<noteq> [] \<longleftrightarrow> fileSrv (run reqs initial) \<noteq> None)
   \<and> fst (handleStatus e MethodGet s)
       = respondJSON 200 [(''proxy_running'', JBool (proxyCmd s \<noteq> None))]
   \<and> fst (handleFileStatus e MethodGet s)
       = respondJSON 200 [(''file_server_running'', JBool (fileSrv s \<noteq> None))]
   \<and> (proxyCmd s \<noteq> None \<longrightarrow>
        handleStartProxy e MethodPost s = (respondError 409 ''proxy already running'', s))
   \<and> (fileSrv s \<noteq> None \<longrightarrow>
        handleFileStart e MethodPost s = (respondError 409 ''file server already running'', s))
   \<and> (Status (fst (handleStartProxy e MethodPost s)) = 200 \<longrightarrow>
        fst (handleStartProxy e MethodPost s) = respondJSON 200 [(''status'', JString ''started'')]
        \<and> handleStartProxy e' MethodPost (snd (handleStartProxy e MethodPost s))
            = (respondError 409 ''proxy already running'', snd (handleStartProxy e MethodPost s)))
   \<and> (Status (fst (handleFileStart e MethodPost s)) = 200 \<longrightarrow>
        fst (handleFileStart e MethodPost s) = respondJSON 200 [(''status'', JString ''started'')]
        \<and> handleFileStart e' MethodPost (snd (handleFileStart e MethodPost s))
            = (respondError 409 ''file server already running'', snd (handleFileStart e MethodPost s)))
   \<and> (proxyCmd s = None \<and> proxy_can_start e \<longrightarrow>
        Status (fst (handleStartProxy e MethodPost s)) = 200
        \<and> Status (fst (handleStartProxy e' MethodPost (snd (handleStartProxy e MethodPost s)))) = 409)
   \<and> (fileSrv s = None \<and> file_server_can_start e \<longrightarrow>
        Status (fst (handleFileStart e MethodPost s)) = 200
        \<and> Status (fst (handleFileStart e' MethodPost (snd (handleFileStart e MethodPost s)))) = 409)
   \<and> (proxyCmd s = None \<and> \<not> proxy_can_start e \<longrightarrow>
        Status (fst (handleStartProxy e MethodPost s)) \<noteq> 200
        \<and> snd (handleStartProxy e MethodPost s) = s)
   \<and> (fileSrv s = None \<and> \<not> file_server_can_start e \<longrightarrow>
        Status (fst (handleFileStart e MethodPost s)) \<noteq> 200
        \<and> snd (handleFileStart e MethodPost s) = s)"
proof -
  have c: "coherent (run reqs initial)"
    using coherent_initial by (rule coherent_run)
  note one = coherent_one [OF c]
  have st: "fst (handleStatus e MethodGet s)
       = respondJSON 200 [(''proxy_running'', JBool (proxyCmd s \<noteq> None))]"
    by (simp add: handleStatus_def StatusOK_def)
  have fst: "fst (handleFileStatus e MethodGet s)
       = respondJSON 200 [(''file_server_running'', JBool (fileSrv s \<noteq> None))]"
    by (simp add: handleFileStatus_def StatusOK_def)
  have p2: "fst (handleStartProxy e MethodPost s) = respondJSON 200 [(''status'', JString ''started'')]
        \<and> handleStartProxy e' MethodPost (snd (handleStartProxy e MethodPost s))
            = (respondError 409 ''proxy already running'', snd (handleStartProxy e MethodPost s))"
    if ok: "Status (fst (handleStartProxy e MethodPost s)) = 200"
    using StartProxy_started(2) [OF ok] StartProxy_conflict [OF StartProxy_started(1) [OF ok]]
    by simp
  have f2: "fst (handleFileStart e MethodPost s) = respondJSON 200 [(''status'', JString ''started'')]
        \<and> handleFileStart e' MethodPost (snd (handleFileStart e MethodPost s))
            = (respondError 409 ''file server already running'', snd (handleFileStart e MethodPost s))"
    if ok: "Status (fst (handleFileStart e MethodPost s)) = 200"
    using FileStart_started(2) [OF ok] FileStart_conflict [OF FileStart_started(1) [OF ok]]
    by simp
  have p3: "Status (fst (handleStartProxy e MethodPost s)) = 200
        \<and> Status (fst (handleStartProxy e' MethodPost (snd (handleStartProxy e MethodPost s)))) = 409"
    if h: "proxyCmd s = None \<and> proxy_can_start e"
  proof -
    from h have ok: "Status (fst (handleStartProxy e MethodPost s)) = 200"
      using StartProxy_status(1) by blast
    with p2 [OF ok] show ?thesis
      by (simp add: respondError_def respondJSON_def)
  qed
  have f3: "Status (fst (handleFileStart e MethodPost s)) = 200
        \<and> Status (fst (handleFileStart e' MethodPost (snd (handleFileStart e MethodPost s)))) = 409"
    if h: "fileSrv s = None \<and> file_server_can_start e"
  proof -
    from h have ok: "Status (fst (handleFileStart e MethodPost s)) = 200"
      using FileStart_status(1) by blast
    with f2 [OF ok] show ?thesis
      by (simp add: respondError_def respondJSON_def)
  qed
  have p4: "Status (fst (handleStartProxy e MethodPost s)) \<noteq> 200
        \<and> snd (handleStartProxy e MethodPost s) = s"
    if "proxyCmd s = None \<and> \<not> proxy_can_start e"
    using that StartProxy_status by blast
  have f4: "Status (fst (handleFileStart e MethodPost s)) \<noteq> 200
        \<and> snd (handleFileStart e MethodPost s) = s"
    if "fileSrv s = None \<and> \<not> file_server_can_start e"
    using that FileStart_status by blast
  from c one st fst StartProxy_conflict FileStart_conflict p2 f2 p3 f3 p4 f4 show ?thesis
    by (intro conjI impI) blast+
qed

theorem single_instance_witness:
  "Status (fst (handleStartProxy example_env MethodPost initial)) = 200
   \<and> handleStartProxy example_env MethodPost (snd (handleStartProxy example_env MethodPost initial))
       = (respondError 409 ''proxy already running'', proxy_running)
   \<and> proxyCmd both_running \<noteq> None \<and> fileSrv both_running \<noteq> None
   \<and> handleStartProxy example_env MethodPost both_running
       = (respondError 409 ''proxy already running'', both_running)
   \<and> handleFileStart example_env MethodPost both_running
       = (respondError 409 ''file server already running'', both_running)
   \<and> length (processes (run [(StartProxyR, example_env, ''POST''), (FileStartR, example_env, ''POST'')] initial)) \<le> 1
   \<and> processes (run [(StartProxyR, example_env, ''POST''), (FileStartR, example_env, ''POST'')] initial) = [0]
   \<and> listeners (run [(StartProxyR, example_env, ''POST''), (FileStartR, example_env, ''POST'')] initial) = [1]
   \<and> fileSrv initial = None \<and> file_server_can_start example_env
   \<and> Status (fst (handleFileStart example_env MethodPost initial)) = 200
   \<and> Status (fst (handleFileStart example_env MethodPost
                      (snd (handleFileStart example_env MethodPost initial)))) = 409
   \<and> proxyCmd initial = None
   \<and> \<not> proxy_can_start (example_env\<lparr>cmd_Start := (\<lambda>path args. Some (SysError ''no such file''))\<rparr>)
   \<and> snd (handleStartProxy (example_env\<lparr>cmd_Start := (\<lambda>path args. Some (SysError ''no such file''))\<rparr>)
             MethodPost initial) = initial"
proof -
  let ?reqs = "[(StartProxyR, example_env, ''POST''), (FileStartR, example_env, ''POST'')]"
  have p: "Status (fst (handleStartProxy example_env MethodPost initial)) = 200"
    by (simp add: example_start_proxy respondJSON_def)
  have s1: "snd (handleStartProxy example_env MethodPost initial) = proxy_running"
    by (simp add: example_start_proxy)
  have hp: "proxyCmd both_running \<noteq> None" and hf: "fileSrv both_running \<noteq> None"
    by (simp_all add: both_running_def proxy_running_def)
  have ps: "processes (run ?reqs initial) = [0]" and ls: "listeners (run ?reqs initial) = [1]"
    by (simp_all only: example_run_both) (simp_all add: both_running_def proxy_running_def)
  note first = single_instance [of "[]" example_env initial example_env]
  note later = single_instance [of ?reqs example_env both_running example_env]
  from first p
  have "handleStartProxy example_env MethodPost (snd (handleStartProxy example_env MethodPost initial))
       = (respondError 409 ''proxy already running'', snd (handleStartProxy example_env MethodPost initial))"
    by blast
  then have 1: "handleStartProxy example_env MethodPost (snd (handleStartProxy example_env MethodPost initial))
       = (respondError 409 ''proxy already running'', proxy_running)"
    by (simp only: s1)
  from later hp
  have 2: "handleStartProxy example_env MethodPost both_running
       = (respondError 409 ''proxy already running'', both_running)"
    by blast
  from later hf
  have 3: "handleFileStart example_env MethodPost both_running
       = (respondError 409 ''file server already running'', both_running)"
    by blast
  from later have 4: "length (processes (run ?reqs initial)) \<le> 1"
    by blast
  let ?bad = "example_env\<lparr>cmd_Start := (\<lambda>path args. Some (SysError ''no such file''))\<rparr>"
  have n: "fileSrv initial = None" "proxyCmd initial = None"
    by (simp_all add: initial_def)
  have fc: "file_server_can_start example_env"
    by (simp add: file_server_can_start_def example_env_def load_or_default_def DefaultConfig_def)
  have nc: "\<not> proxy_can_start ?bad"
    by (simp add: proxy_can_start_def example_env_def load_or_default_def)
  from first n fc
  have 5: "Status (fst (handleFileStart example_env MethodPost initial)) = 200"
    and 6: "Status (fst (handleFileStart example_env MethodPost
                      (snd (handleFileStart example_env MethodPost initial)))) = 409"
    by blast+
  from single_instance [of "[]" ?bad initial example_env] n nc
  have 7: "snd (handleStartProxy ?bad MethodPost initial) = initial"
    by blast
  from p 1 hp hf 2 3 4 ps ls n(1) fc 5 6 n(2) nc 7 show ?thesis
    by (intro conjI)
qed

text \<open>
  C2.  For each managed-service kind, Stop is idempotent.  A \<open>POST\<close> to
  \<open>/api/stop-proxy\<close> or \<open>/api/file-stop\<close> when no handle exists answers 200 with status
  \<open>not_running\<close> and changes nothing; when a handle exists it ends the service (the
  process is killed, the listener closed), clears the handle and answers 200 with status
  \<open>stopped\<close>.  A Stop is never an error, and a Stop after a Stop answers \<open>not_running\<close>.
\<close>

theorem stop_idempotent:
  "(proxyCmd s = None \<longrightarrow>
      handleStopProxy e MethodPost s = (respondJSON 200 [(''status'', JString ''not_running'')], s))
   \<and> (fileSrv s = None \<longrightarrow>
      handleFileStop e MethodPost s = (respondJSON 200 [(''status'', JString ''not_running'')], s))
   \<and> (proxyCmd s = Some cmd \<longrightarrow>
      fst (handleStopProxy e MethodPost s) = respondJSON 200 [(''status'', JString ''stopped'')]
      \<and> proxyCmd (snd (handleStopProxy e MethodPost s)) = None
      \<and> cmd_pid cmd \<notin> set (processes (snd (handleStopProxy e MethodPost s)))
      \<and> (coherent s \<longrightarrow> processes (snd (handleStopProxy e MethodPost s)) = [])
      \<and> fileSrv (snd (handleStopProxy e MethodPost s)) = fileSrv s
      \<and> listeners (snd (handleStopProxy e MethodPost s)) = listeners s)
   \<and> (fileSrv s = Some srv \<longrightarrow>
      fst (handleFileStop e MethodPost s) = respondJSON 200 [(''status'', JString ''stopped'')]
      \<and> fileSrv (snd (handleFileStop e MethodPost s)) = None
      \<and> srv_listener srv \<notin> set (listeners (snd (handleFileStop e MethodPost s)))
      \<and> (coherent s \<longrightarrow> listeners (snd (handleFileStop e MethodPost s)) = [])
      \<and> proxyCmd (snd (handleFileStop e MethodPost s)) = proxyCmd s
      \<and> processes (snd (handleFileStop e MethodPost s)) = processes s)
   \<and> Status (fst (handleStopProxy e MethodPost s)) = 200
   \<and> Status (fst (handleFileStop e MethodPost s)) = 200
   \<and> handleStopProxy e' MethodPost (snd (handleStopProxy e MethodPost s))
       = (respondJSON 200 [(''status'', JString ''not_running'')], snd (handleStopProxy e MethodPost s))
   \<and> handleFileStop e' MethodPost (snd (handleFileStop e MethodPost s))
       = (respondJSON 200 [(''status'', JString ''not_running'')], snd (handleFileStop e MethodPost s))"
proof (intro conjI impI)
  show "handleStopProxy e MethodPost s = (respondJSON 200 [(''status'', JString ''not_running'')], s)"
    if "proxyCmd s = None"
    using that by (simp add: handleStopProxy_def StatusOK_def)
  show "handleFileStop e MethodPost s = (respondJSON 200 [(''status'', JString ''not_running'')], s)"
    if "fileSrv s = None"
    using that by (simp add: handleFileStop_def StatusOK_def)
next
  assume h: "proxyCmd s = Some cmd"
  then have eq: "handleStopProxy e MethodPost s
      = (respondJSON 200 [(''status'', JString ''stopped'')],
         s\<lparr>processes := removeAll (cmd_pid cmd) (processes s), proxyCmd := None\<rparr>)"
    by (simp add: handleStopProxy_def StatusOK_def)
  show "fst (handleStopProxy e MethodPost s) = respondJSON 200 [(''status'', JString ''stopped'')]"
    and "proxyCmd (snd (handleStopProxy e MethodPost s)) = None"
    and "cmd_pid cmd \<notin> set (processes (snd (handleStopProxy e MethodPost s)))"
    and "fileSrv (snd (handleStopProxy e MethodPost s)) = fileSrv s"
    and "listeners (snd (handleStopProxy e MethodPost s)) = listeners s"
    by (simp_all add: eq)
  show "processes (snd (handleStopProxy e MethodPost s)) = []" if "coherent s"
    using that h by (simp add: eq coherent_def)
next
  assume h: "fileSrv s = Some srv"
  then have eq: "handleFileStop e MethodPost s
      = (respondJSON 200 [(''status'', JString ''stopped'')],
         s\<lparr>listeners := removeAll (srv_listener srv) (listeners s), fileSrv := None\<rparr>)"
    by (simp add: handleFileStop_def StatusOK_def)
  show "fst (handleFileStop e MethodPost s) = respondJSON 200 [(''status'', JString ''stopped'')]"
    and "fileSrv (snd (handleFileStop e MethodPost s)) = None"
    and "srv_listener srv \<notin> set (listeners (snd (handleFileStop e MethodPost s)))"
    and "proxyCmd (snd (handleFileStop e MethodPost s)) = proxyCmd s"
    and "processes (snd (handleFileStop e MethodPost s)) = processes s"
    by (simp_all add: eq)
  show "listeners (snd (handleFileStop e MethodPost s)) = []" if "coherent s"
    using that h by (simp add: eq coherent_def)
next
  show "Status (fst (handleStopProxy e MethodPost s)) = 200"
    by (simp add: handleStopProxy_def StatusOK_def respondJSON_def split: option.splits)
  show "Status (fst (handleFileStop e MethodPost s)) = 200"
    by (simp add: handleFileStop_def StatusOK_def respondJSON_def split: option.splits)
  have "proxyCmd (snd (handleStopProxy e MethodPost s)) = None"
    by (simp add: handleStopProxy_def split: option.splits)
  then show "handleStopProxy e' MethodPost (snd (handleStopProxy e MethodPost s))
       = (respondJSON 200 [(''status'', JString ''not_running'')], snd (handleStopProxy e MethodPost s))"
    by (simp add: handleStopProxy_def [of e'] StatusOK_def)
  have "fileSrv (snd (handleFileStop e MethodPost s)) = None"
    by (simp add: handleFileStop_def split: option.splits)
  then show "handleFileStop e' MethodPost (snd (handleFileStop e MethodPost s))
       = (respondJSON 200 [(''status'', JString ''not_running'')], snd (handleFileStop e MethodPost s))"
    by (simp add: handleFileStop_def [of e'] StatusOK_def)
qed

theorem stop_idempotent_witness:
  "proxyCmd initial = None \<and> fileSrv initial = None
   \<and> handleStopProxy example_env MethodPost initial
       = (respondJSON 200 [(''status'', JString ''not_running'')], initial)
   \<and> handleFileStop example_env MethodPost initial
       = (respondJSON 200 [(''status'', JString ''not_running'')], initial)
   \<and> proxyCmd both_running
       = Some \<lparr>cmd_path = ''/opt/ligolo/proxy'', cmd_args = [''-laddr'', ''127.0.0.1:11601'', ''-selfcert''],
               cmd_pid = 0\<rparr>
   \<and> coherent both_running
   \<and> fst (handleStopProxy example_env MethodPost both_running)
       = respondJSON 200 [(''status'', JString ''stopped'')]
   \<and> proxyCmd (snd (handleStopProxy example_env MethodPost both_running)) = None
   \<and> processes (snd (handleStopProxy example_env MethodPost both_running)) = []
   \<and> fileSrv both_running
       = Some \<lparr>srv_addr = ''0.0.0.0:8000'', srv_root = ''/home/op/.local/share/PivotOnTheGO/loot'',
               srv_listener = 1\<rparr>
   \<and> fst (handleFileStop example_env MethodPost both_running)
       = respondJSON 200 [(''status'', JString ''stopped'')]
   \<and> fileSrv (snd (handleFileStop example_env MethodPost both_running)) = None
   \<and> listeners (snd (handleFileStop example_env MethodPost both_running)) = []"
proof -
  let ?cmd = "\<lparr>cmd_path = ''/opt/ligolo/proxy'', cmd_args = [''-laddr'', ''127.0.0.1:11601'', ''-selfcert''],
               cmd_pid = 0\<rparr>"
  let ?srv = "\<lparr>srv_addr = ''0.0.0.0:8000'', srv_root = ''/home/op/.local/share/PivotOnTheGO/loot'',
               srv_listener = 1\<rparr>"
  have n: "proxyCmd initial = None" "fileSrv initial = None"
    by (simp_all add: initial_def)
  have hp: "proxyCmd both_running = Some ?cmd" and hf: "fileSrv both_running = Some ?srv"
    by (simp_all add: both_running_def proxy_running_def)
  have c: "coherent both_running"
    using coherent_run [OF coherent_initial] example_run_both by metis
  note none = stop_idempotent [of initial example_env ?cmd ?srv example_env]
  note some = stop_idempotent [of both_running example_env ?cmd ?srv example_env]
  from none n have 1: "handleStopProxy example_env MethodPost initial
       = (respondJSON 200 [(''status'', JString ''not_running'')], initial)"
    by blast
  from none n have 2: "handleFileStop example_env MethodPost initial
       = (respondJSON 200 [(''status'', JString ''not_running'')], initial)"
    by blast
  from some hp c have 3: "fst (handleStopProxy example_env MethodPost both_running)
       = respondJSON 200 [(''status'', JString ''stopped'')]"
    and 4: "proxyCmd (snd (handleStopProxy example_env MethodPost both_running)) = None"
    and 5: "processes (snd (handleStopProxy example_env MethodPost both_running)) = []"
    by blast+
  from some hf c have 6: "fst (handleFileStop example_env MethodPost both_running)
       = respondJSON 200 [(''status'', JString ''stopped'')]"
    and 7: "fileSrv (snd (handleFileStop example_env MethodPost both_running)) = None"
    and 8: "listeners (snd (handleFileStop example_env MethodPost both_running)) = []"
    by blast+
  from n 1 2 hp c 3 4 5 hf 6 7 8 show ?thesis
    by (intro conjI)
qed

section \<open>The scout session runner: the claims\<close>

text \<open>
  C3 as the claim states it fails for the SMB share: the share name is checked in the SMB
  backend, after the loot directory has been looked up and the host directory created.
  In the environment where every call succeeds, the request for protocol \<open>smb\<close> with an
  empty share is rejected only after the home directory has been looked up, the
  application directory tested with \<open>os.Stat\<close>, the host directory created with
  \<open>os.MkdirAll\<close> and the clock read.
\<close>

theorem scout_validation_counterexample:
  "Protocol (example_request\<lparr>Protocol := ''smb''\<rparr>) = FSProtocolSMB
   \<and> SMBShare (example_request\<lparr>Protocol := ''smb''\<rparr>) = []
   \<and> snd (fst (RunFSScout example_world (example_request\<lparr>Protocol := ''smb''\<rparr>)))
       = Some (ErrorString ''SMB share name is required for smb protocol'')
   \<and> snd (RunFSScout example_world (example_request\<lparr>Protocol := ''smb''\<rparr>))
       = [EUserHomeDir, EUserHomeDir, EStat ''/home/op/.local/share/PivotOnTheGO'',
          EMkdirAll ''/home/op/.local/share/PivotOnTheGO/loot/fs/10.0.0.5'', ETimeNow]"
  by code_simp

text \<open>
  C3, amended.  For every scout request, \<open>RunFSScout\<close> rejects an empty host, an empty
  username, an empty password and an empty start directory, each on its own, with a
  validation error before any call to the operating system (the trace is empty: no
  directory is created, no process is started).  For protocol \<open>smb\<close> an empty share name
  is rejected too, without starting a process or writing a file; for a request that is
  valid otherwise this error comes from the SMB backend, after the loot directory has
  been looked up and the host directory created.
\<close>

theorem scout_validation:
  "(Host req = [] \<longrightarrow>
      RunFSScout w req = ((no_result, Some (ErrorString ''host is required'')), []))
   \<and> (Host req \<noteq> [] \<and> (Username req = [] \<or> Password req = []) \<longrightarrow>
      RunFSScout w req = ((no_result, Some (ErrorString ''username and password are required'')), []))
   \<and> (Host req \<noteq> [] \<and> Username req \<noteq> [] \<and> Password req \<noteq> [] \<and> StartDir req = [] \<longrightarrow>
      RunFSScout w req = ((no_result, Some (ErrorString ''start directory is required'')), []))
   \<and> (Host req = [] \<or> Username req = [] \<or> Password req = [] \<or> StartDir req = [] \<longrightarrow>
      snd (fst (RunFSScout w req)) \<noteq> None \<and> snd (RunFSScout w req) = [])
   \<and> (Protocol req = FSProtocolSMB \<and> SMBShare req = [] \<longrightarrow>
      snd (fst (RunFSScout w req)) \<noteq> None
      \<and> filter is_exec (snd (RunFSScout w req)) = []
      \<and> filter is_write_file (snd (RunFSScout w req)) = [])
   \<and> (Protocol req = FSProtocolSMB \<and> SMBShare req = [] \<and> request_valid req
        \<and> DefaultLootDir w = (Inr lootDir, t1) \<and> mkdir_all w (fs_base lootDir req) = None \<longrightarrow>
      snd (fst (RunFSScout w req)) = Some (ErrorString ''SMB share name is required for smb protocol'')
      \<and> snd (RunFSScout w req) = t1 @ [EMkdirAll (fs_base lootDir req), ETimeNow])"
proof (intro conjI impI)
  show "RunFSScout w req = ((no_result, Some (ErrorString ''host is required'')), [])"
    if "Host req = []"
    using that by (simp add: RunFSScout_unfold)
  show "RunFSScout w req = ((no_result, Some (ErrorString ''username and password are required'')), [])"
    if "Host req \<noteq> [] \<and> (Username req = [] \<or> Password req = [])"
    using that by (auto simp: RunFSScout_unfold)
  show "RunFSScout w req = ((no_result, Some (ErrorString ''start directory is required'')), [])"
    if "Host req \<noteq> [] \<and> Username req \<noteq> [] \<and> Password req \<noteq> [] \<and> StartDir req = []"
    using that by (simp add: RunFSScout_unfold)
next
  assume "Host req = [] \<or> Username req = [] \<or> Password req = [] \<or> StartDir req = []"
  then have inv: "\<not> request_valid req"
    by (auto simp: request_valid_def)
  show "snd (fst (RunFSScout w req)) \<noteq> None" and "snd (RunFSScout w req) = []"
    by (simp_all add: RunFSScout_invalid [OF inv])
next
  assume smb: "Protocol req = FSProtocolSMB \<and> SMBShare req = []"
  then have d: "dispatch w (effective_request req) out
      = (Some (ErrorString ''SMB share name is required for smb protocol''), [])" for out
    by (simp add: dispatch_smb_no_share effective_request_fields)
  have loot_trace: "filter is_exec t = [] \<and> filter is_write_file t = []"
    if "DefaultLootDir w = (x, t)" for x t
  proof -
    have "\<forall>e \<in> set t. \<not> is_exec e \<and> \<not> is_write_file e"
      using DefaultLootDir_trace [of _ w] that by fastforce
    then show ?thesis by (simp add: filter_empty_conv)
  qed
  have all: "snd (fst (RunFSScout w req)) \<noteq> None
      \<and> filter is_exec (snd (RunFSScout w req)) = []
      \<and> filter is_write_file (snd (RunFSScout w req)) = []"
  proof (cases "request_valid req")
    case False
    then show ?thesis by (simp add: RunFSScout_invalid)
  next
    case True
    show ?thesis
    proof (cases rule: DefaultLootDir_cases [of w])
      case (1 err t)
      with True loot_trace [OF 1] show ?thesis
        by (simp add: RunFSScout_no_loot)
    next
      case (2 lootDir t)
      show ?thesis
      proof (cases "mkdir_all w (fs_base lootDir req)")
        case None
        from RunFSScout_dispatch [OF True 2 None d] loot_trace [OF 2]
        show ?thesis by simp
      next
        case (Some err)
        from RunFSScout_no_dir [OF True 2 Some] loot_trace [OF 2]
        show ?thesis by simp
      qed
    qed
  qed
  from all show "snd (fst (RunFSScout w req)) \<noteq> None" by simp
  from all show "filter is_exec (snd (RunFSScout w req)) = []" by simp
  from all show "filter is_write_file (snd (RunFSScout w req)) = []" by simp
next
  assume h: "Protocol req = FSProtocolSMB \<and> SMBShare req = [] \<and> request_valid req
        \<and> DefaultLootDir w = (Inr lootDir, t1) \<and> mkdir_all w (fs_base lootDir req) = None"
  then have d: "dispatch w (effective_request req) (out_path w lootDir req)
      = (Some (ErrorString ''SMB share name is required for smb protocol''), [])"
    by (simp add: dispatch_smb_no_share effective_request_fields)
  from h have v: "request_valid req" and l: "DefaultLootDir w = (Inr lootDir, t1)"
    and m: "mkdir_all w (fs_base lootDir req) = None" by simp_all
  note run = RunFSScout_dispatch [OF v l m d]
  from run show "snd (fst (RunFSScout w req))
      = Some (ErrorString ''SMB share name is required for smb protocol'')" by simp
  from run show "snd (RunFSScout w req) = t1 @ [EMkdirAll (fs_base lootDir req), ETimeNow]"
    by simp
qed

theorem scout_validation_witness:
  "Host (example_request\<lparr>Host := []\<rparr>) = []
   \<and> RunFSScout example_world (example_request\<lparr>Host := []\<rparr>)
       = ((no_result, Some (ErrorString ''host is required'')), [])
   \<and> Host (example_request\<lparr>Password := []\<rparr>) \<noteq> []
   \<and> Password (example_request\<lparr>Password := []\<rparr>) = []
   \<and> RunFSScout example_world (example_request\<lparr>Password := []\<rparr>)
       = ((no_result, Some (ErrorString ''username and password are required'')), [])
   \<and> Protocol (example_request\<lparr>Protocol := ''smb''\<rparr>) = FSProtocolSMB
   \<and> SMBShare (example_request\<lparr>Protocol := ''smb''\<rparr>) = []
   \<and> request_valid (example_request\<lparr>Protocol := ''smb''\<rparr>)
   \<and> filter is_exec (snd (RunFSScout example_world (example_request\<lparr>Protocol := ''smb''\<rparr>))) = []
   \<and> snd (fst (RunFSScout example_world (example_request\<lparr>Protocol := ''smb''\<rparr>)))
       = Some (ErrorString ''SMB share name is required for smb protocol'')"
proof -
  let ?h = "example_request\<lparr>Host := []\<rparr>"
  let ?p = "example_request\<lparr>Password := []\<rparr>"
  let ?s = "example_request\<lparr>Protocol := ''smb''\<rparr>"
  let ?loot = "''/home/op/.local/share/PivotOnTheGO/loot''"
  let ?t = "[EUserHomeDir, EUserHomeDir, EStat ''/home/op/.local/share/PivotOnTheGO'']"
  have h: "Host ?h = []" by simp
  have p: "Host ?p \<noteq> []" "Password ?p = []"
    by (simp_all add: example_request_def)
  have s: "Protocol ?s = FSProtocolSMB" "SMBShare ?s = []" "request_valid ?s"
    by (simp_all add: example_request_def FSProtocolSMB_def request_valid_def)
  have loot: "DefaultLootDir example_world = (Inr ?loot, ?t)"
    by code_simp
  have mk: "mkdir_all example_world (fs_base ?loot ?s) = None"
    by (simp add: example_world_def)
  from scout_validation [of ?h example_world ?loot ?t] h
  have 1: "RunFSScout example_world ?h = ((no_result, Some (ErrorString ''host is required'')), [])"
    by blast
  from scout_validation [of ?p example_world ?loot ?t] p
  have 2: "RunFSScout example_world ?p
       = ((no_result, Some (ErrorString ''username and password are required'')), [])"
    by blast
  note c3 = scout_validation [of ?s example_world ?loot ?t]
  from c3 s have 3: "filter is_exec (snd (RunFSScout example_world ?s)) = []"
    by blast
  from c3 s loot mk have 4: "snd (fst (RunFSScout example_world ?s))
       = Some (ErrorString ''SMB share name is required for smb protocol'')"
    by blast
  from h 1 p 2 s 3 4 show ?thesis by (intro conjI)
qed

text \<open>
  C4 as the claim states it fails where it says that the two outcomes are reported
  independently, so that the caller can tell the outcome of the write: a backend returns
  one error, and when the command failed it returns the command's error whatever the
  write did.  In the two environments above the command fails alike, the write is
  attempted in both, it succeeds in one and fails in the other, and \<open>RunFSScout\<close> returns
  the same result and the same error.
\<close>

theorem backend_outcomes_counterexample:
  "run_err (run_cmd cmd_fails_write_ok ''ssh'' (ssh_args (effective_request example_request)))
     = Some (SysError ''exit status 255'')
   \<and> run_cmd cmd_fails_write_fails = run_cmd cmd_fails_write_ok
   \<and> filter is_write_file (snd (RunFSScout cmd_fails_write_ok example_request))
       = [EWriteFile ''/home/op/.local/share/PivotOnTheGO/loot/fs/10.0.0.5/2024-01-01_00-00-00_ssh_fast.txt''
            ''FILE|/etc/passwd\<newline>'']
   \<and> snd (RunFSScout cmd_fails_write_fails example_request)
       = snd (RunFSScout cmd_fails_write_ok example_request)
   \<and> write_file cmd_fails_write_ok
         ''/home/op/.local/share/PivotOnTheGO/loot/fs/10.0.0.5/2024-01-01_00-00-00_ssh_fast.txt''
         ''FILE|/etc/passwd\<newline>'' = None
   \<and> write_file cmd_fails_write_fails
         ''/home/op/.local/share/PivotOnTheGO/loot/fs/10.0.0.5/2024-01-01_00-00-00_ssh_fast.txt''
         ''FILE|/etc/passwd\<newline>'' = Some (SysError ''no space left on device'')
   \<and> fst (RunFSScout cmd_fails_write_fails example_request)
       = fst (RunFSScout cmd_fails_write_ok example_request)
   \<and> snd (fst (RunFSScout cmd_fails_write_ok example_request))
       = Some (WrapError ''ssh command failed: '' (SysError ''exit status 255''))"
proof (intro conjI)
  show "run_cmd cmd_fails_write_fails = run_cmd cmd_fails_write_ok"
    by (simp add: cmd_fails_write_fails_def)
qed code_simp+

text \<open>
  C4, amended.  For every scout backend invocation that runs its external command, the
  Runner always attempts to normalize and persist the captured output, also when the
  command failed: the trace is the command followed by the write.  One error is
  returned, and the command's failure takes precedence: a command failure is reported
  (wrapped as \<open><tool> command failed: ...\<close>) whether the write succeeded or failed, so a
  write failure does not mask it; the outcome of the write is reported only when the
  command succeeded, and after a command failure the returned error does not depend on
  it.
\<close>

theorem backend_outcomes:
  "(let p = run_cmd w ''ssh'' (ssh_args req);
        c = ssh_artifact (captured Stdout p) (captured Stderr p)
    in snd (runFSScoutSSH w req outPath) = [EExec ''ssh'' (ssh_args req), EWriteFile outPath c]
       \<and> fst (runFSScoutSSH w req outPath)
           = backend_report ''ssh'' (run_err p) (write_file w outPath c))
   \<and> (SMBShare req \<noteq> [] \<longrightarrow>
       (let p = run_cmd w ''smbclient'' (smb_args req);
            c = smb_artifact (merged p)
        in snd (runFSScoutSMB w req outPath) = [EExec ''smbclient'' (smb_args req), EWriteFile outPath c]
           \<and> fst (runFSScoutSMB w req outPath)
               = backend_report ''smbclient'' (run_err p) (write_file w outPath c)))
   \<and> (let p = run_cmd w ''evil-winrm'' (winrm_args req);
           c = generic_artifact (merged p)
       in snd (runFSScoutEvilWinRM w req outPath)
            = [EExec ''evil-winrm'' (winrm_args req), EWriteFile outPath c]
          \<and> fst (runFSScoutEvilWinRM w req outPath)
              = backend_report ''evil-winrm'' (run_err p) (write_file w outPath c))
   \<and> backend_report tool (Some e) write_err = Some (WrapError (tool @ '' command failed: '') e)
   \<and> backend_report tool None write_err = write_err"
proof (intro conjI impI)
  show "let p = run_cmd w ''ssh'' (ssh_args req);
        c = ssh_artifact (captured Stdout p) (captured Stderr p)
    in snd (runFSScoutSSH w req outPath) = [EExec ''ssh'' (ssh_args req), EWriteFile outPath c]
       \<and> fst (runFSScoutSSH w req outPath)
           = backend_report ''ssh'' (run_err p) (write_file w outPath c)"
    by (simp add: runFSScoutSSH_unfold Let_def)
  show "let p = run_cmd w ''smbclient'' (smb_args req);
            c = smb_artifact (merged p)
        in snd (runFSScoutSMB w req outPath) = [EExec ''smbclient'' (smb_args req), EWriteFile outPath c]
           \<and> fst (runFSScoutSMB w req outPath)
               = backend_report ''smbclient'' (run_err p) (write_file w outPath c)"
    if "SMBShare req \<noteq> []"
    using that by (simp add: runFSScoutSMB_unfold Let_def)
  show "let p = run_cmd w ''evil-winrm'' (winrm_args req);
           c = generic_artifact (merged p)
       in snd (runFSScoutEvilWinRM w req outPath)
            = [EExec ''evil-winrm'' (winrm_args req), EWriteFile outPath c]
          \<and> fst (runFSScoutEvilWinRM w req outPath)
              = backend_report ''evil-winrm'' (run_err p) (write_file w outPath c)"
    by (simp add: runFSScoutEvilWinRM_unfold Let_def)
  show "backend_report tool (Some e) write_err = Some (WrapError (tool @ '' command failed: '') e)"
    by (simp add: backend_report_def)
  show "backend_report tool None write_err = write_err"
    by (simp add: backend_report_def)
qed

theorem backend_outcomes_witness:
  "SMBShare (example_request\<lparr>SMBShare := ''C$''\<rparr>) \<noteq> []
   \<and> snd (runFSScoutSMB cmd_fails_write_fails (example_request\<lparr>SMBShare := ''C$''\<rparr>) ''out.txt'')
       = [EExec ''smbclient'' [''//10.0.0.5/C$'', ''-U'', ''root%hunter2'', ''-c'', ''recurse; ls''],
          EWriteFile ''out.txt'' ''FILE|/etc/passwd\<newline>FILE|Connection\<newline>'']
   \<and> fst (runFSScoutSMB cmd_fails_write_fails (example_request\<lparr>SMBShare := ''C$''\<rparr>) ''out.txt'')
       = Some (WrapError ''smbclient command failed: '' (SysError ''exit status 255''))"
proof -
  let ?r = "example_request\<lparr>SMBShare := ''C$''\<rparr>"
  let ?w = "cmd_fails_write_fails"
  have share: "SMBShare ?r \<noteq> []" by simp
  have args: "smb_args ?r = [''//10.0.0.5/C$'', ''-U'', ''root%hunter2'', ''-c'', ''recurse; ls'']"
    by (simp add: smb_args_def example_request_def)
  have art: "smb_artifact (merged (run_cmd ?w ''smbclient'' a))
      = ''FILE|/etc/passwd\<newline>FILE|Connection\<newline>''" for a
    unfolding cmd_fails_write_fails_def cmd_fails_write_ok_def by (simp add: merged_def) code_simp
  have err: "run_err (run_cmd ?w ''smbclient'' a) = Some (SysError ''exit status 255'')" for a
    by (simp add: cmd_fails_write_fails_def cmd_fails_write_ok_def)
  note c4 = backend_outcomes [of ?w ?r "''out.txt''" "''smbclient''" "SysError ''exit status 255''"
      "write_file ?w ''out.txt'' ''FILE|/etc/passwd\<newline>FILE|Connection\<newline>''"]
  from c4 share have "snd (runFSScoutSMB ?w ?r ''out.txt'')
      = [EExec ''smbclient'' (smb_args ?r),
         EWriteFile ''out.txt'' (smb_artifact (merged (run_cmd ?w ''smbclient'' (smb_args ?r))))]"
    unfolding Let_def by blast
  then have 1: "snd (runFSScoutSMB ?w ?r ''out.txt'')
      = [EExec ''smbclient'' [''//10.0.0.5/C$'', ''-U'', ''root%hunter2'', ''-c'', ''recurse; ls''],
          EWriteFile ''out.txt'' ''FILE|/etc/passwd\<newline>FILE|Connection\<newline>'']"
    unfolding art args .
  from c4 share have "fst (runFSScoutSMB ?w ?r ''out.txt'')
      = backend_report ''smbclient'' (run_err (run_cmd ?w ''smbclient'' (smb_args ?r)))
          (write_file ?w ''out.txt'' (smb_artifact (merged (run_cmd ?w ''smbclient'' (smb_args ?r)))))"
    unfolding Let_def by blast
  moreover from c4 have "backend_report ''smbclient'' (Some (SysError ''exit status 255''))
       (write_file ?w ''out.txt'' ''FILE|/etc/passwd\<newline>FILE|Connection\<newline>'')
      = Some (WrapError (''smbclient'' @ '' command failed: '') (SysError ''exit status 255''))"
    by blast
  ultimately have 2: "fst (runFSScoutSMB ?w ?r ''out.txt'')
       = Some (WrapError ''smbclient command failed: '' (SysError ''exit status 255''))"
    unfolding err art by simp
  from share 1 2 show ?thesis by (intro conjI)
qed

text \<open>
  C5 as the claim states it fails: \<open>handleFSScout\<close> answers every error of \<open>RunFSScout\<close>
  with \<open>http.StatusBadRequest\<close>.  Where the \<open>ssh\<close> command fails (and where, besides,
  the artifact cannot be written) the status is 400, not 500.
\<close>

theorem fs_scout_status_counterexample:
  "snd (fst (RunFSScout cmd_fails_write_ok example_request))
     = Some (WrapError ''ssh command failed: '' (SysError ''exit status 255''))
   \<and> Status (fst (handleFSScout cmd_fails_write_ok ''POST'' (Inr example_request))) = 400
   \<and> Status (fst (handleFSScout cmd_fails_write_fails ''POST'' (Inr example_request))) = 400
   \<and> Status (fst (handleFSScout cmd_fails_write_ok ''POST'' (Inr example_request))) \<noteq> 500"
  by code_simp

text \<open>
  C5, amended.  For every \<open>/api/fs-scout\<close> request whose external backend command or
  artifact write fails, the endpoint responds with HTTP 400 and a body, the Scout
  Result, carrying the error message.  Every failure of \<open>RunFSScout\<close> yields 400, a
  caller error as well as a failure of the environment, and the endpoint never responds
  with 500: its status is 200, 400 or 405.
\<close>

theorem fs_scout_status:
  "(RunFSScout w req = ((res, Some err), t) \<longrightarrow>
      handleFSScout w MethodPost (Inr req) = (respondJSON 400 (encode_result res), t))
   \<and> (request_valid req \<and> DefaultLootDir w = (Inr lootDir, t1)
        \<and> mkdir_all w (fs_base lootDir req) = None
        \<and> dispatch w (effective_request req) (out_path w lootDir req) = (Some err, t2)
        \<and> Error err \<noteq> [] \<longrightarrow>
      Status (fst (handleFSScout w MethodPost (Inr req))) = 400
      \<and> (''error'', JString (Error err)) \<in> set (Payload (fst (handleFSScout w MethodPost (Inr req)))))
   \<and> (Protocol req = FSProtocolSSH \<and> request_valid req \<and> DefaultLootDir w = (Inr lootDir, t1)
        \<and> mkdir_all w (fs_base lootDir req) = None
        \<and> (run_err (run_cmd w ''ssh'' (ssh_args (effective_request req))) \<noteq> None
             \<or> write_file w (out_path w lootDir req)
                  (ssh_artifact
                     (captured Stdout (run_cmd w ''ssh'' (ssh_args (effective_request req))))
                     (captured Stderr (run_cmd w ''ssh'' (ssh_args (effective_request req)))))
                 \<noteq> None) \<longrightarrow>
      Status (fst (handleFSScout w MethodPost (Inr req))) = 400)
   \<and> Status (fst (handleFSScout w method body)) \<in> {200, 400, 405}
   \<and> Status (fst (handleFSScout w method body)) \<noteq> 500"
proof (intro conjI impI)
  show "handleFSScout w MethodPost (Inr req) = (respondJSON 400 (encode_result res), t)"
    if "RunFSScout w req = ((res, Some err), t)"
    using that by (simp add: handleFSScout_def StatusBadRequest_def)
next
  assume h: "request_valid req \<and> DefaultLootDir w = (Inr lootDir, t1)
        \<and> mkdir_all w (fs_base lootDir req) = None
        \<and> dispatch w (effective_request req) (out_path w lootDir req) = (Some err, t2)
        \<and> Error err \<noteq> []"
  then have v: "request_valid req" and l: "DefaultLootDir w = (Inr lootDir, t1)"
    and m: "mkdir_all w (fs_base lootDir req) = None"
    and d: "dispatch w (effective_request req) (out_path w lootDir req) = (Some err, t2)"
    and e: "Error err \<noteq> []"
    by simp_all
  note run = RunFSScout_dispatch [OF v l m d]
  from run show "Status (fst (handleFSScout w MethodPost (Inr req))) = 400"
    by (simp add: handleFSScout_def StatusBadRequest_def respondJSON_def)
  from run e show "(''error'', JString (Error err))
      \<in> set (Payload (fst (handleFSScout w MethodPost (Inr req))))"
    by (simp add: handleFSScout_def respondJSON_def encode_result_def)
next
  let ?p = "run_cmd w ''ssh'' (ssh_args (effective_request req))"
  let ?c = "ssh_artifact (captured Stdout ?p) (captured Stderr ?p)"
  assume h: "Protocol req = FSProtocolSSH \<and> request_valid req \<and> DefaultLootDir w = (Inr lootDir, t1)
        \<and> mkdir_all w (fs_base lootDir req) = None
        \<and> (run_err ?p \<noteq> None \<or> write_file w (out_path w lootDir req) ?c \<noteq> None)"
  then have v: "request_valid req" and l: "DefaultLootDir w = (Inr lootDir, t1)"
    and m: "mkdir_all w (fs_base lootDir req) = None"
    by simp_all
  from h have "backend_report ''ssh'' (run_err ?p) (write_file w (out_path w lootDir req) ?c) \<noteq> None"
    by (auto simp: backend_report_def split: option.splits)
  then obtain err where
    "backend_report ''ssh'' (run_err ?p) (write_file w (out_path w lootDir req) ?c) = Some err"
    by blast
  with h have d: "dispatch w (effective_request req) (out_path w lootDir req)
      = (Some err, [EExec ''ssh'' (ssh_args (effective_request req)),
                    EWriteFile (out_path w lootDir req) ?c])"
    by (simp add: dispatch_ssh effective_request_fields runFSScoutSSH_unfold Let_def)
  from RunFSScout_dispatch [OF v l m d]
  show "Status (fst (handleFSScout w MethodPost (Inr req))) = 400"
    by (simp add: handleFSScout_def StatusBadRequest_def respondJSON_def)
next
  have "Status (fst (handleFSScout w method body)) = 405
      \<or> Status (fst (handleFSScout w method body)) = 400
      \<or> Status (fst (handleFSScout w method body)) = 200"
    by (auto simp: handleFSScout_def respondError_def respondJSON_def StatusOK_def
        StatusBadRequest_def StatusMethodNotAllowed_def split: sum.splits prod.splits option.splits)
  then show "Status (fst (handleFSScout w method body)) \<in> {200, 400, 405}"
    and "Status (fst (handleFSScout w method body)) \<noteq> 500"
    by auto
qed

theorem fs_scout_status_witness:
  "RunFSScout cmd_fails_write_ok example_request
     = ((\<lparr>OutputFile = ''/home/op/.local/share/PivotOnTheGO/loot/fs/10.0.0.5/2024-01-01_00-00-00_ssh_fast.txt'',
          ResProtocol = ''ssh'', ResMode = ''fast'', ResHost = ''10.0.0.5'',
          ResError = ''ssh command failed: exit status 255''\<rparr>,
         Some (WrapError ''ssh command failed: '' (SysError ''exit status 255''))),
        [EUserHomeDir, EUserHomeDir, EStat ''/home/op/.local/share/PivotOnTheGO'',
         EMkdirAll ''/home/op/.local/share/PivotOnTheGO/loot/fs/10.0.0.5'', ETimeNow,
         EExec ''ssh'' [''-p'', ''22'', ''root@10.0.0.5'', ''find'', ''/etc'', ''-maxdepth'', ''3'',
                        ''-type'', ''f'', ''-printf'', ''%p\<newline>''],
         EWriteFile ''/home/op/.local/share/PivotOnTheGO/loot/fs/10.0.0.5/2024-01-01_00-00-00_ssh_fast.txt''
           ''FILE|/etc/passwd\<newline>''])
   \<and> Status (fst (handleFSScout cmd_fails_write_ok MethodPost (Inr example_request))) = 400
   \<and> Payload (fst (handleFSScout cmd_fails_write_ok MethodPost (Inr example_request)))
       = [(''output_file'', JString ''/home/op/.local/share/PivotOnTheGO/loot/fs/10.0.0.5/2024-01-01_00-00-00_ssh_fast.txt''),
          (''protocol'', JString ''ssh''), (''mode'', JString ''fast''), (''host'', JString ''10.0.0.5''),
          (''error'', JString ''ssh command failed: exit status 255'')]"
proof -
  let ?res = "\<lparr>OutputFile = ''/home/op/.local/share/PivotOnTheGO/loot/fs/10.0.0.5/2024-01-01_00-00-00_ssh_fast.txt'',
          ResProtocol = ''ssh'', ResMode = ''fast'', ResHost = ''10.0.0.5'',
          ResError = ''ssh command failed: exit status 255''\<rparr>"
  let ?err = "WrapError ''ssh command failed: '' (SysError ''exit status 255'')"
  let ?t = "[EUserHomeDir, EUserHomeDir, EStat ''/home/op/.local/share/PivotOnTheGO'',
         EMkdirAll ''/home/op/.local/share/PivotOnTheGO/loot/fs/10.0.0.5'', ETimeNow,
         EExec ''ssh'' [''-p'', ''22'', ''root@10.0.0.5'', ''find'', ''/etc'', ''-maxdepth'', ''3'',
                        ''-type'', ''f'', ''-printf'', ''%p\<newline>''],
         EWriteFile ''/home/op/.local/share/PivotOnTheGO/loot/fs/10.0.0.5/2024-01-01_00-00-00_ssh_fast.txt''
           ''FILE|/etc/passwd\<newline>'']"
  have run: "RunFSScout cmd_fails_write_ok example_request = ((?res, Some ?err), ?t)"
    by code_simp
  from fs_scout_status [of cmd_fails_write_ok example_request ?res ?err ?t] run
  have "handleFSScout cmd_fails_write_ok MethodPost (Inr example_request)
      = (respondJSON 400 (encode_result ?res), ?t)"
    by blast
  then have "Status (fst (handleFSScout cmd_fails_write_ok MethodPost (Inr example_request))) = 400"
    and "Payload (fst (handleFSScout cmd_fails_write_ok MethodPost (Inr example_request)))
       = [(''output_file'', JString ''/home/op/.local/share/PivotOnTheGO/loot/fs/10.0.0.5/2024-01-01_00-00-00_ssh_fast.txt''),
          (''protocol'', JString ''ssh''), (''mode'', JString ''fast''), (''host'', JString ''10.0.0.5''),
          (''error'', JString ''ssh command failed: exit status 255'')]"
    by (simp_all add: respondJSON_def encode_result_def)
  with run show ?thesis by (intro conjI)
qed

section \<open>Output normalization: the claims\<close>

text \<open>
  C6.  SSH output normalization writes exactly one \<open>FILE|<line>\<close> record per non-blank
  (trimmed) line of standard output, in the order of standard output, followed by one
  \<open>DENIED|<trimmed line>\<close> record per line of standard error that contains
  \<open>Permission denied\<close>, and nothing for any other line of standard error: the content
  handed to \<open>os.WriteFile\<close> is these records, one per line, and read back line by line
  it is these records and nothing else.  For the standard output
  \<open>"/etc/passwd\n/etc/shadow\n\n"\<close> and a standard error with one line \<open>d\<close> that contains
  \<open>Permission denied\<close>, the file is two \<open>FILE|\<close> lines and then one \<open>DENIED|\<close> line.
\<close>

theorem ssh_normalization:
  "snd (writeFSScoutOutputSSH w outPath stdout stderr)
     = [EWriteFile outPath (render (ssh_file_records stdout @ ssh_denied_records stderr))]
   \<and> Split (ssh_artifact stdout stderr) LF
     = ssh_file_records stdout @ ssh_denied_records stderr @ [[]]
   \<and> (filter (\<lambda>l. Contains l ''Permission denied'') (Split stderr LF) = [d] \<longrightarrow>
        ssh_artifact ''/etc/passwd\<newline>/etc/shadow\<newline>\<newline>'' stderr
          = ''FILE|/etc/passwd\<newline>FILE|/etc/shadow\<newline>DENIED|'' @ TrimSpace d @ [LF])"
proof (intro conjI impI)
  show "snd (writeFSScoutOutputSSH w outPath stdout stderr)
     = [EWriteFile outPath (render (ssh_file_records stdout @ ssh_denied_records stderr))]"
    by (simp add: writeFSScoutOutputSSH_def ssh_artifact_render Let_def)
next
  show "Split (ssh_artifact stdout stderr) LF
     = ssh_file_records stdout @ ssh_denied_records stderr @ [[]]"
    by (rule ssh_artifact_lines)
next
  assume one: "filter (\<lambda>l. Contains l ''Permission denied'') (Split stderr LF) = [d]"
  then have "ssh_denied_records stderr = [''DENIED|'' @ TrimSpace d]"
    by (simp add: ssh_denied_records_def)
  then show "ssh_artifact ''/etc/passwd\<newline>/etc/shadow\<newline>\<newline>'' stderr
          = ''FILE|/etc/passwd\<newline>FILE|/etc/shadow\<newline>DENIED|'' @ TrimSpace d @ [LF]"
    by (simp add: ssh_artifact_render ssh_example_stdout render_def)
qed

theorem ssh_normalization_witness:
  "filter (\<lambda>l. Contains l ''Permission denied'')
     (Split ''find: /root: Permission denied\<newline>ssh: warning\<newline>'' LF)
     = [''find: /root: Permission denied'']
   \<and> ssh_artifact ''/etc/passwd\<newline>/etc/shadow\<newline>\<newline>''
         ''find: /root: Permission denied\<newline>ssh: warning\<newline>''
     = ''FILE|/etc/passwd\<newline>FILE|/etc/shadow\<newline>DENIED|find: /root: Permission denied\<newline>''"
proof -
  have one: "filter (\<lambda>l. Contains l ''Permission denied'')
     (Split ''find: /root: Permission denied\<newline>ssh: warning\<newline>'' LF)
     = [''find: /root: Permission denied'']"
    by code_simp
  have trim: "TrimSpace ''find: /root: Permission denied'' = ''find: /root: Permission denied''"
    by code_simp
  from ssh_normalization [of example_world "[]" "[]"
      "''find: /root: Permission denied\<newline>ssh: warning\<newline>''"
      "''find: /root: Permission denied''"] one trim
  show ?thesis by simp
qed

text \<open>
  C7.  SMB output normalization: every line of the raw output gives the record
  \<open>smb_record\<close> names, in order, one per line of the file.  A line that is blank once
  trimmed gives none; a trimmed non-blank line that contains \<open>NT_STATUS_ACCESS_DENIED\<close>
  gives \<open>DENIED|<line>\<close>; any other non-blank line has a first white-space-delimited
  token (the first of its \<open>strings.Fields\<close>), which gives \<open>FILE|<name>\<close> unless it is
  \<open>.\<close> or \<open>..\<close>, and then the line is dropped.
\<close>

theorem smb_normalization:
  "snd (parseAndWriteSMBOutput w outPath raw)
     = [EWriteFile outPath (render (List.map_filter smb_record (Split raw LF)))]
   \<and> Split (smb_artifact raw) LF = List.map_filter smb_record (Split raw LF) @ [[]]
   \<and> (TrimSpace line = [] \<longrightarrow> smb_loop [line] buf = buf)
   \<and> (TrimSpace line \<noteq> [] \<and> Contains (TrimSpace line) ''NT_STATUS_ACCESS_DENIED'' \<longrightarrow>
        smb_loop [line] buf = buf @ ''DENIED|'' @ TrimSpace line @ [LF])
   \<and> (TrimSpace line \<noteq> [] \<and> \<not> Contains (TrimSpace line) ''NT_STATUS_ACCESS_DENIED'' \<longrightarrow>
        Fields (TrimSpace line) \<noteq> []
        \<and> hd (Fields (TrimSpace line)) = first_token (TrimSpace line)
        \<and> smb_loop [line] buf =
            (if first_token (TrimSpace line) = ''.'' \<or> first_token (TrimSpace line) = ''..''
             then buf
             else buf @ ''FILE|'' @ first_token (TrimSpace line) @ [LF]))"
proof (intro conjI impI)
  show "snd (parseAndWriteSMBOutput w outPath raw)
     = [EWriteFile outPath (render (List.map_filter smb_record (Split raw LF)))]"
    by (simp add: parseAndWriteSMBOutput_def smb_artifact_render Let_def)
next
  show "Split (smb_artifact raw) LF = List.map_filter smb_record (Split raw LF) @ [[]]"
    by (rule smb_artifact_lines)
next
  assume "TrimSpace line = []"
  then show "smb_loop [line] buf = buf" by simp
next
  assume "TrimSpace line \<noteq> [] \<and> Contains (TrimSpace line) ''NT_STATUS_ACCESS_DENIED''"
  then show "smb_loop [line] buf = buf @ ''DENIED|'' @ TrimSpace line @ [LF]"
    by simp
next
  assume h: "TrimSpace line \<noteq> [] \<and> \<not> Contains (TrimSpace line) ''NT_STATUS_ACCESS_DENIED''"
  then have ne: "TrimSpace line \<noteq> []" by simp
  note f = smb_fields_first [OF ne]
  from f show "Fields (TrimSpace line) \<noteq> []" by auto
  from f show "hd (Fields (TrimSpace line)) = first_token (TrimSpace line)"
    by (simp add: hd_conv_nth)
  from h f show "smb_loop [line] buf =
            (if first_token (TrimSpace line) = ''.'' \<or> first_token (TrimSpace line) = ''..''
             then buf
             else buf @ ''FILE|'' @ first_token (TrimSpace line) @ [LF])"
    by (simp add: Let_def)
qed

theorem smb_normalization_witness:
  "TrimSpace ''  secret.txt    A    0  Mon Jan  1 00:00:00 2024'' \<noteq> []
   \<and> \<not> Contains (TrimSpace ''  secret.txt    A    0  Mon Jan  1 00:00:00 2024'')
          ''NT_STATUS_ACCESS_DENIED''
   \<and> smb_loop [''  secret.txt    A    0  Mon Jan  1 00:00:00 2024''] [] = ''FILE|secret.txt\<newline>''
   \<and> Split (smb_artifact
        (''NT_STATUS_ACCESS_DENIED listing '' @ [CHR 0x5C, CHR ''x'', LF]
          @ ''  secret.txt    A    0  Mon Jan  1 00:00:00 2024\<newline>''
          @ ''  .     D    0  Mon Jan  1 00:00:00 2024\<newline>''
          @ ''  ..    D    0  Mon Jan  1 00:00:00 2024\<newline>'')) LF
      = [''DENIED|NT_STATUS_ACCESS_DENIED listing '' @ [CHR 0x5C, CHR ''x''],
         ''FILE|secret.txt'', []]"
proof -
  let ?line = "''  secret.txt    A    0  Mon Jan  1 00:00:00 2024''"
  let ?raw = "''NT_STATUS_ACCESS_DENIED listing '' @ [CHR 0x5C, CHR ''x'', LF]
          @ ''  secret.txt    A    0  Mon Jan  1 00:00:00 2024\<newline>''
          @ ''  .     D    0  Mon Jan  1 00:00:00 2024\<newline>''
          @ ''  ..    D    0  Mon Jan  1 00:00:00 2024\<newline>''"
  have trim: "TrimSpace ?line = ''secret.txt    A    0  Mon Jan  1 00:00:00 2024''"
    by code_simp
  have nd: "\<not> Contains ''secret.txt    A    0  Mon Jan  1 00:00:00 2024'' ''NT_STATUS_ACCESS_DENIED''"
    by code_simp
  have tok: "first_token ''secret.txt    A    0  Mon Jan  1 00:00:00 2024'' = ''secret.txt''"
    by code_simp
  have recs: "List.map_filter smb_record (Split ?raw LF)
      = [''DENIED|NT_STATUS_ACCESS_DENIED listing '' @ [CHR 0x5C, CHR ''x''], ''FILE|secret.txt'']"
    by code_simp
  from smb_normalization [of example_world "[]" ?raw ?line "[]"] trim nd tok recs
  show ?thesis by simp
qed

section \<open>Protocols, credentials and the host directory: the claims\<close>

text \<open>
  C8.  Every scout request with protocol \<open>ftp\<close> fails, and \<open>RunFSScout\<close> starts no
  external process and writes no file for it.  When the request passes the validation
  and the host directory can be created, the error is the not-implemented error, the
  result carries its message (which is not empty), and the calls made are those of the
  loot directory look-up, the \<open>MkdirAll\<close> of the host directory under \<open><loot>/fs/\<close> and
  the reading of the clock: the directory is created before the dispatch.
\<close>

theorem ftp_not_implemented:
  "Protocol req = FSProtocolFTP \<longrightarrow>
     snd (fst (RunFSScout w req)) \<noteq> None
     \<and> filter is_exec (snd (RunFSScout w req)) = []
     \<and> filter is_write_file (snd (RunFSScout w req)) = []
     \<and> (request_valid req \<and> DefaultLootDir w = (Inr lootDir, t1)
          \<and> mkdir_all w (filepath_Join [lootDir, ''fs'', sanitizeHost (Host req)]) = None \<longrightarrow>
          snd (fst (RunFSScout w req))
            = Some (ErrorString ''FTP auto-scout not implemented yet; use generate-only / manual mode'')
          \<and> ResError (fst (fst (RunFSScout w req)))
            = ''FTP auto-scout not implemented yet; use generate-only / manual mode''
          \<and> ResError (fst (fst (RunFSScout w req))) \<noteq> []
          \<and> snd (RunFSScout w req)
            = t1 @ [EMkdirAll (filepath_Join [lootDir, ''fs'', sanitizeHost (Host req)]), ETimeNow])"
proof (intro impI)
  assume ftp: "Protocol req = FSProtocolFTP"
  let ?e = "ErrorString ''FTP auto-scout not implemented yet; use generate-only / manual mode''"
  have d: "dispatch w (effective_request req) out = (Some ?e, [])" for out
    using ftp by (simp add: dispatch_ftp effective_request_fields)
  have loot_trace: "filter is_exec t = [] \<and> filter is_write_file t = []"
    if "DefaultLootDir w = (x, t)" for x t
  proof -
    have "\<forall>e \<in> set t. \<not> is_exec e \<and> \<not> is_write_file e"
      using DefaultLootDir_trace [of _ w] that by fastforce
    then show ?thesis by (simp add: filter_empty_conv)
  qed
  have all: "snd (fst (RunFSScout w req)) \<noteq> None
      \<and> filter is_exec (snd (RunFSScout w req)) = []
      \<and> filter is_write_file (snd (RunFSScout w req)) = []"
  proof (cases "request_valid req")
    case False
    then show ?thesis by (simp add: RunFSScout_invalid)
  next
    case True
    show ?thesis
    proof (cases rule: DefaultLootDir_cases [of w])
      case (1 err t)
      with True loot_trace [OF 1] show ?thesis
        by (simp add: RunFSScout_no_loot)
    next
      case (2 l t)
      show ?thesis
      proof (cases "mkdir_all w (fs_base l req)")
        case None
        from RunFSScout_dispatch [OF True 2 None d] loot_trace [OF 2]
        show ?thesis by simp
      next
        case (Some err)
        from RunFSScout_no_dir [OF True 2 Some] loot_trace [OF 2]
        show ?thesis by simp
      qed
    qed
  qed
  have reached: "snd (fst (RunFSScout w req)) = Some ?e
          \<and> ResError (fst (fst (RunFSScout w req)))
            = ''FTP auto-scout not implemented yet; use generate-only / manual mode''
          \<and> ResError (fst (fst (RunFSScout w req))) \<noteq> []
          \<and> snd (RunFSScout w req)
            = t1 @ [EMkdirAll (filepath_Join [lootDir, ''fs'', sanitizeHost (Host req)]), ETimeNow]"
    if h: "request_valid req \<and> DefaultLootDir w = (Inr lootDir, t1)
          \<and> mkdir_all w (filepath_Join [lootDir, ''fs'', sanitizeHost (Host req)]) = None"
  proof -
    from h have v: "request_valid req" and l: "DefaultLootDir w = (Inr lootDir, t1)"
      and m: "mkdir_all w (fs_base lootDir req) = None"
      by (simp_all add: fs_base_def)
    from RunFSScout_dispatch [OF v l m d] show ?thesis
      by (simp add: fs_base_def del: filepath_Join.simps)
  qed
  from all reached show "snd (fst (RunFSScout w req)) \<noteq> None
     \<and> filter is_exec (snd (RunFSScout w req)) = []
     \<and> filter is_write_file (snd (RunFSScout w req)) = []
     \<and> (request_valid req \<and> DefaultLootDir w = (Inr lootDir, t1)
          \<and> mkdir_all w (filepath_Join [lootDir, ''fs'', sanitizeHost (Host req)]) = None \<longrightarrow>
          snd (fst (RunFSScout w req)) = Some ?e
          \<and> ResError (fst (fst (RunFSScout w req)))
            = ''FTP auto-scout not implemented yet; use generate-only / manual mode''
          \<and> ResError (fst (fst (RunFSScout w req))) \<noteq> []
          \<and> snd (RunFSScout w req)
            = t1 @ [EMkdirAll (filepath_Join [lootDir, ''fs'', sanitizeHost (Host req)]), ETimeNow])"
    by blast
qed

theorem ftp_not_implemented_witness:
  "Protocol (example_request\<lparr>Protocol := ''ftp''\<rparr>) = FSProtocolFTP
   \<and> request_valid (example_request\<lparr>Protocol := ''ftp''\<rparr>)
   \<and> fst (DefaultLootDir example_world) = Inr ''/home/op/.local/share/PivotOnTheGO/loot''
   \<and> snd (fst (RunFSScout example_world (example_request\<lparr>Protocol := ''ftp''\<rparr>)))
       = Some (ErrorString ''FTP auto-scout not implemented yet; use generate-only / manual mode'')
   \<and> snd (RunFSScout example_world (example_request\<lparr>Protocol := ''ftp''\<rparr>))
       = [EUserHomeDir, EUserHomeDir, EStat ''/home/op/.local/share/PivotOnTheGO'',
          EMkdirAll ''/home/op/.local/share/PivotOnTheGO/loot/fs/10.0.0.5'', ETimeNow]"
proof -
  let ?f = "example_request\<lparr>Protocol := ''ftp''\<rparr>"
  let ?loot = "''/home/op/.local/share/PivotOnTheGO/loot''"
  let ?t = "[EUserHomeDir, EUserHomeDir, EStat ''/home/op/.local/share/PivotOnTheGO'']"
  have f: "Protocol ?f = FSProtocolFTP" "request_valid ?f"
    by (simp_all add: example_request_def FSProtocolFTP_def request_valid_def)
  have loot: "DefaultLootDir example_world = (Inr ?loot, ?t)"
    by code_simp
  have mk: "mkdir_all example_world (filepath_Join [?loot, ''fs'', sanitizeHost (Host ?f)]) = None"
    by (simp add: example_world_def)
  have dir: "filepath_Join [?loot, ''fs'', sanitizeHost (Host ?f)]
      = ''/home/op/.local/share/PivotOnTheGO/loot/fs/10.0.0.5''"
    by code_simp
  note c8 = ftp_not_implemented [of ?f example_world ?loot ?t]
  from c8 f loot mk
  have 1: "snd (fst (RunFSScout example_world ?f))
       = Some (ErrorString ''FTP auto-scout not implemented yet; use generate-only / manual mode'')"
    by blast
  from c8 f loot mk
  have "snd (RunFSScout example_world ?f)
      = ?t @ [EMkdirAll (filepath_Join [?loot, ''fs'', sanitizeHost (Host ?f)]), ETimeNow]"
    by blast
  then have 2: "snd (RunFSScout example_world ?f)
       = [EUserHomeDir, EUserHomeDir, EStat ''/home/op/.local/share/PivotOnTheGO'',
          EMkdirAll ''/home/op/.local/share/PivotOnTheGO/loot/fs/10.0.0.5'', ETimeNow]"
    unfolding dir by simp
  have l: "fst (DefaultLootDir example_world) = Inr ?loot"
    unfolding loot by simp
  from f l 1 2 show ?thesis by (intro conjI)
qed

text \<open>
  C9.  For every SSH scout request the password is never transmitted.  Two requests that
  differ only in the password field give the same argument list to \<open>ssh\<close>, and the SSH
  backend then does the same and returns the same; the only process it starts is \<open>ssh\<close>
  with that argument list.  A whole run of \<open>RunFSScout\<close> for protocol \<open>ssh\<close> is the same
  for any two non-empty passwords (an empty one is rejected by the validation).
\<close>

theorem ssh_password_not_transmitted:
  "(r1\<lparr>Password := []\<rparr> = r2\<lparr>Password := []\<rparr> \<longrightarrow>
      ssh_args r1 = ssh_args r2
      \<and> runFSScoutSSH w r1 outPath = runFSScoutSSH w r2 outPath)
   \<and> filter is_exec (snd (runFSScoutSSH w r1 outPath)) = [EExec ''ssh'' (ssh_args r1)]
   \<and> (r1\<lparr>Password := []\<rparr> = r2\<lparr>Password := []\<rparr> \<and> Protocol r1 = FSProtocolSSH
        \<and> Password r1 \<noteq> [] \<and> Password r2 \<noteq> [] \<longrightarrow>
        RunFSScout w r1 = RunFSScout w r2)"
proof (intro conjI impI)
  assume same: "r1\<lparr>Password := []\<rparr> = r2\<lparr>Password := []\<rparr>"
  then show args: "ssh_args r1 = ssh_args r2"
    by (rule ssh_args_password)
  then show "runFSScoutSSH w r1 outPath = runFSScoutSSH w r2 outPath"
    by (simp add: runFSScoutSSH_unfold)
next
  show "filter is_exec (snd (runFSScoutSSH w r1 outPath)) = [EExec ''ssh'' (ssh_args r1)]"
    by (simp add: runFSScoutSSH_unfold Let_def)
next
  assume h: "r1\<lparr>Password := []\<rparr> = r2\<lparr>Password := []\<rparr> \<and> Protocol r1 = FSProtocolSSH
        \<and> Password r1 \<noteq> [] \<and> Password r2 \<noteq> []"
  then have r2: "r2 = r1\<lparr>Password := Password r2\<rparr>"
    using same_but_password by blast
  have r1: "r1 = r1\<lparr>Password := Password r1\<rparr>" by simp
  from h have "RunFSScout w (r1\<lparr>Password := Password r1\<rparr>) = RunFSScout w (r1\<lparr>Password := Password r2\<rparr>)"
    by (intro RunFSScout_ssh_password) simp_all
  with r1 r2 show "RunFSScout w r1 = RunFSScout w r2"
    by metis
qed

theorem ssh_password_not_transmitted_witness:
  "example_request\<lparr>Password := []\<rparr> = (example_request\<lparr>Password := ''letmein''\<rparr>)\<lparr>Password := []\<rparr>
   \<and> Protocol example_request = FSProtocolSSH
   \<and> Password example_request \<noteq> [] \<and> Password (example_request\<lparr>Password := ''letmein''\<rparr>) \<noteq> []
   \<and> Password example_request \<noteq> Password (example_request\<lparr>Password := ''letmein''\<rparr>)
   \<and> ssh_args example_request = ssh_args (example_request\<lparr>Password := ''letmein''\<rparr>)
   \<and> RunFSScout example_world example_request
       = RunFSScout example_world (example_request\<lparr>Password := ''letmein''\<rparr>)"
proof -
  let ?r2 = "example_request\<lparr>Password := ''letmein''\<rparr>"
  have same: "example_request\<lparr>Password := []\<rparr> = ?r2\<lparr>Password := []\<rparr>" by simp
  have ssh: "Protocol example_request = FSProtocolSSH"
    by (simp add: example_request_def FSProtocolSSH_def)
  have p1: "Password example_request \<noteq> []" and p2: "Password ?r2 \<noteq> []"
    and ne: "Password example_request \<noteq> Password ?r2"
    by (simp_all add: example_request_def)
  note c9 = ssh_password_not_transmitted [of example_request ?r2 example_world "[]"]
  from c9 same have "ssh_args example_request = ssh_args ?r2"
    by blast
  moreover from c9 same ssh p1 p2 have "RunFSScout example_world example_request = RunFSScout example_world ?r2"
    by blast
  ultimately show ?thesis
    using same ssh p1 p2 ne by (intro conjI)
qed

text \<open>
  C10.  For every host string, \<open>sanitizeHost\<close> only trims the surrounding white space
  and replaces every \<open>:\<close> and \<open>/\<close> by \<open>_\<close>; every \<open>.\<close> of the host is still there.  So
  the host \<open>..\<close> is returned unchanged, and \<open>filepath.Join(<loot>, "fs", "..")\<close> is the
  (cleaned) loot root itself.  In a run of \<open>RunFSScout\<close> for a valid request with host
  \<open>..\<close> the directory that is created is the loot directory, the artifact path is the
  file name joined to the loot directory, and, when time stamp, protocol and mode hold no
  separator, the artifact is not under \<open><loot>/fs/\<close>.
\<close>

theorem sanitizeHost_parent_directory:
  "sanitizeHost h =
     map (\<lambda>c. if c = CHR '':'' \<or> c = CHR ''/'' then CHR ''_'' else c) (TrimSpace h)
   \<and> filter (\<lambda>c. c = CHR ''.'') (sanitizeHost h) = filter (\<lambda>c. c = CHR ''.'') h
   \<and> sanitizeHost ''..'' = ''..''
   \<and> (loot \<noteq> [] \<longrightarrow> filepath_Join [loot, ''fs'', sanitizeHost ''..''] = Clean loot)
   \<and> (request_valid req \<and> Host req = ''..'' \<and> DefaultLootDir w = (Inr lootDir, t1)
        \<and> mkdir_all w lootDir = None \<longrightarrow>
        fs_base lootDir req = lootDir
        \<and> EMkdirAll lootDir \<in> set (snd (RunFSScout w req))
        \<and> OutputFile (fst (fst (RunFSScout w req)))
            = filepath_Join [lootDir,
                time_now w @ ''_'' @ Protocol req @ ''_'' @ Mode (effective_request req) @ ''.txt'']
        \<and> (CHR ''/'' \<notin> set (time_now w @ Protocol req @ Mode req) \<longrightarrow>
             \<not> prefix (lootDir @ ''/fs/'') (OutputFile (fst (fst (RunFSScout w req))))))"
proof (intro conjI impI)
  show "sanitizeHost h =
     map (\<lambda>c. if c = CHR '':'' \<or> c = CHR ''/'' then CHR ''_'' else c) (TrimSpace h)"
    by (rule sanitizeHost_map)
  show "filter (\<lambda>c. c = CHR ''.'') (sanitizeHost h) = filter (\<lambda>c. c = CHR ''.'') h"
    by (rule sanitizeHost_dots)
  show "sanitizeHost ''..'' = ''..''"
    by (rule sanitizeHost_dotdot)
  show "filepath_Join [loot, ''fs'', sanitizeHost ''..''] = Clean loot" if "loot \<noteq> []"
    using that filepath_Join_parent by (simp only: sanitizeHost_dotdot)
next
  assume h: "request_valid req \<and> Host req = ''..'' \<and> DefaultLootDir w = (Inr lootDir, t1)
        \<and> mkdir_all w lootDir = None"
  then have valid: "request_valid req" and host: "Host req = ''..''"
    and loot: "DefaultLootDir w = (Inr lootDir, t1)" and mk: "mkdir_all w lootDir = None"
    by simp_all
  from DefaultLootDir_clean [OF loot] have ne: "lootDir \<noteq> []" and cl: "Clean lootDir = lootDir"
    by simp_all
  let ?name = "time_now w @ ''_'' @ Protocol req @ ''_'' @ Mode (effective_request req) @ ''.txt''"
  show base: "fs_base lootDir req = lootDir"
    unfolding fs_base_def host sanitizeHost_dotdot
    using filepath_Join_parent [OF ne] cl by (simp del: filepath_Join.simps)
  then have out: "out_path w lootDir req = filepath_Join [lootDir, ?name]"
    by (simp only: out_path_def)
  obtain runErr t2 where d: "dispatch w (effective_request req) (out_path w lootDir req) = (runErr, t2)"
    by (cases "dispatch w (effective_request req) (out_path w lootDir req)")
  from mk base have "mkdir_all w (fs_base lootDir req) = None" by simp
  note run = RunFSScout_dispatch [OF valid loot this d]
  from run base show "EMkdirAll lootDir \<in> set (snd (RunFSScout w req))"
    by simp
  from run out show outfile: "OutputFile (fst (fst (RunFSScout w req))) = filepath_Join [lootDir, ?name]"
    by simp
  show "\<not> prefix (lootDir @ ''/fs/'') (OutputFile (fst (fst (RunFSScout w req))))"
    if sep: "CHR ''/'' \<notin> set (time_now w @ Protocol req @ Mode req)"
  proof -
    have "CHR ''/'' \<notin> set (Mode (effective_request req))"
      using sep by (auto simp: effective_request_def FSModeFast_def Let_def)
    with sep have 1: "CHR ''/'' \<notin> set ?name" by simp
    have u: "CHR ''_'' \<in> set ?name" by simp
    have 2: "?name \<noteq> []" "?name \<noteq> ''.''" "?name \<noteq> ''..''"
    proof -
      show "?name \<noteq> []" by simp
      show "?name \<noteq> ''.''"
      proof
        assume e: "?name = ''.''"
        from u have "CHR ''_'' \<in> set ''.''" unfolding e .
        then show False by simp
      qed
      show "?name \<noteq> ''..''"
      proof
        assume e: "?name = ''..''"
        from u have "CHR ''_'' \<in> set ''..''" unfolding e .
        then show False by simp
      qed
    qed
    show ?thesis
      unfolding outfile using filepath_Join_child_outside [OF cl 2 1] .
  qed
qed

theorem sanitizeHost_parent_directory_witness:
  "''/home/op/.local/share/PivotOnTheGO/loot'' \<noteq> []
   \<and> request_valid (example_request\<lparr>Host := ''..''\<rparr>)
   \<and> Host (example_request\<lparr>Host := ''..''\<rparr>) = ''..''
   \<and> fst (DefaultLootDir example_world) = Inr ''/home/op/.local/share/PivotOnTheGO/loot''
   \<and> mkdir_all example_world ''/home/op/.local/share/PivotOnTheGO/loot'' = None
   \<and> CHR ''/'' \<notin> set (time_now example_world @ Protocol (example_request\<lparr>Host := ''..''\<rparr>)
                        @ Mode (example_request\<lparr>Host := ''..''\<rparr>))
   \<and> filepath_Join [''/home/op/.local/share/PivotOnTheGO/loot'', ''fs'', sanitizeHost ''..'']
        = ''/home/op/.local/share/PivotOnTheGO/loot''
   \<and> EMkdirAll ''/home/op/.local/share/PivotOnTheGO/loot''
        \<in> set (snd (RunFSScout example_world (example_request\<lparr>Host := ''..''\<rparr>)))
   \<and> OutputFile (fst (fst (RunFSScout example_world (example_request\<lparr>Host := ''..''\<rparr>))))
        = ''/home/op/.local/share/PivotOnTheGO/loot/2024-01-01_00-00-00_ssh_fast.txt''
   \<and> \<not> prefix ''/home/op/.local/share/PivotOnTheGO/loot/fs/''
         (OutputFile (fst (fst (RunFSScout example_world (example_request\<lparr>Host := ''..''\<rparr>)))))"
proof -
  let ?loot = "''/home/op/.local/share/PivotOnTheGO/loot''"
  let ?req = "example_request\<lparr>Host := ''..''\<rparr>"
  let ?t = "[EUserHomeDir, EUserHomeDir, EStat ''/home/op/.local/share/PivotOnTheGO'']"
  have valid: "request_valid ?req"
    by (simp add: request_valid_def example_request_def)
  have host: "Host ?req = ''..''" by simp
  have loot: "DefaultLootDir example_world = (Inr ?loot, ?t)"
    by code_simp
  have mk: "mkdir_all example_world ?loot = None"
    by (simp add: example_world_def)
  have sep: "CHR ''/'' \<notin> set (time_now example_world @ Protocol ?req @ Mode ?req)"
    by (simp add: example_world_def example_request_def)
  have cl: "Clean ?loot = ?loot" by code_simp
  have name: "filepath_Join [?loot,
       time_now example_world @ ''_'' @ Protocol ?req @ ''_'' @ Mode (effective_request ?req) @ ''.txt'']
     = ''/home/op/.local/share/PivotOnTheGO/loot/2024-01-01_00-00-00_ssh_fast.txt''"
    by code_simp
  note c10 = sanitizeHost_parent_directory [of "''..''" ?loot ?req example_world ?loot ?t]
  from c10 have "?loot \<noteq> [] \<longrightarrow> filepath_Join [?loot, ''fs'', sanitizeHost ''..''] = Clean ?loot"
    by (elim conjE)
  then have parent: "filepath_Join [?loot, ''fs'', sanitizeHost ''..''] = ?loot"
    unfolding cl by (simp del: filepath_Join.simps)
  from c10 have "request_valid ?req \<and> Host ?req = ''..'' \<and> DefaultLootDir example_world = (Inr ?loot, ?t)
        \<and> mkdir_all example_world ?loot = None \<longrightarrow>
        fs_base ?loot ?req = ?loot
        \<and> EMkdirAll ?loot \<in> set (snd (RunFSScout example_world ?req))
        \<and> OutputFile (fst (fst (RunFSScout example_world ?req)))
            = filepath_Join [?loot,
                time_now example_world @ ''_'' @ Protocol ?req @ ''_'' @ Mode (effective_request ?req) @ ''.txt'']
        \<and> (CHR ''/'' \<notin> set (time_now example_world @ Protocol ?req @ Mode ?req) \<longrightarrow>
             \<not> prefix (?loot @ ''/fs/'') (OutputFile (fst (fst (RunFSScout example_world ?req)))))"
    by (elim conjE)
  with valid host loot mk sep
  have run: "EMkdirAll ?loot \<in> set (snd (RunFSScout example_world ?req))"
    "OutputFile (fst (fst (RunFSScout example_world ?req)))
            = filepath_Join [?loot,
                time_now example_world @ ''_'' @ Protocol ?req @ ''_'' @ Mode (effective_request ?req) @ ''.txt'']"
    "\<not> prefix (?loot @ ''/fs/'') (OutputFile (fst (fst (RunFSScout example_world ?req))))"
    by blast+
  from run(3) have outside: "\<not> prefix ''/home/op/.local/share/PivotOnTheGO/loot/fs/''
         (OutputFile (fst (fst (RunFSScout example_world ?req))))"
    by simp
  from run(2) have outfile: "OutputFile (fst (fst (RunFSScout example_world ?req)))
      = ''/home/op/.local/share/PivotOnTheGO/loot/2024-01-01_00-00-00_ssh_fast.txt''"
    unfolding name .
  have l: "fst (DefaultLootDir example_world) = Inr ?loot"
    unfolding loot by simp
  have n: "?loot \<noteq> []" by simp
  from n valid host l mk sep parent run(1) outfile outside
  show ?thesis by (intro conjI)
qed

end
